theory Spec2Isabelle
  imports Main
begin

section \<open>The V4L2 capture layer of Motion (video\_v4l2.c)\<close>

text \<open>
  A shallow embedding of the functions of \<^verbatim>\<open>src/video_v4l2.c\<close> that decide the
  properties stated below. C \<^verbatim>\<open>int\<close> values are HOL integers. The arithmetic of
  \<^verbatim>\<open>v4l2_autobright\<close> and the result of \<^verbatim>\<open>atoi\<close>, which input can take out of the range of
  \<^verbatim>\<open>int\<close>, are kept in 32 bits by \<^verbatim>\<open>c_int\<close>; every other theorem that depends on the
  absence of signed overflow says so in its hypotheses. The kernel, the C library
  and the helpers of Motion that live in other files are inputs of the model: the answers
  of the device are arguments of the functions that issue the request.
\<close>

subsection \<open>C arithmetic\<close>

text \<open>Division and remainder of C truncate toward zero; HOL's round toward minus infinity.\<close>

definition c_div :: "int \<Rightarrow> int \<Rightarrow> int" where
  "c_div a b = sgn a * sgn b * (\<bar>a\<bar> div \<bar>b\<bar>)"

definition c_mod :: "int \<Rightarrow> int \<Rightarrow> int" where
  "c_mod a b = a - b * c_div a b"

definition INT_MAX :: int where
  "INT_MAX = 2147483647"

definition INT_MIN :: int where
  "INT_MIN = - 2147483648"

text \<open>
  An \<^verbatim>\<open>int\<close> result as the compiled code keeps it, in 32 bits two's complement: a value
  outside \<^verbatim>\<open>INT_MIN\<close> .. \<^verbatim>\<open>INT_MAX\<close> wraps around (the C standard leaves signed overflow
  undefined). \<^verbatim>\<open>LONG_MAX\<close> and \<^verbatim>\<open>LONG_MIN\<close> are those of a 64-bit \<^verbatim>\<open>long\<close>.
\<close>

definition c_int :: "int \<Rightarrow> int" where
  "c_int i = (i + 2147483648) mod 4294967296 - 2147483648"

definition LONG_MAX :: int where
  "LONG_MAX = 9223372036854775807"

definition LONG_MIN :: int where
  "LONG_MIN = - 9223372036854775808"

text \<open>\<^verbatim>\<open>#define MAX2(x, y) ((x) > (y) ? (x) : (y))\<close> and \<^verbatim>\<open>MIN2\<close>.\<close>

definition MAX2 :: "int \<Rightarrow> int \<Rightarrow> int" where
  "MAX2 x y = (if x > y then x else y)"

definition MIN2 :: "int \<Rightarrow> int \<Rightarrow> int" where
  "MIN2 x y = (if x < y then x else y)"

subsection \<open>Data\<close>

text \<open>
  \<^verbatim>\<open>volatile unsigned int *finish\<close> of \<^verbatim>\<open>src_v4l2_t\<close>: either the null pointer (the
  structure comes zeroed from \<^verbatim>\<open>calloc\<close>) or the address of the \<^verbatim>\<open>finish\<close> field of the
  thread context, as \<^verbatim>\<open>v4l2_device_init\<close> stores it.
\<close>

datatype finish_ptr = NULL | Addr_cnt_finish

text \<open>The part of \<^verbatim>\<open>struct v4l2_format\<close> the code reads; the fields are unsigned 32-bit.\<close>

record v4l2_pix_format =
  pix_width :: nat
  pix_height :: nat
  pix_pixelformat :: nat
  pix_bytesperline :: nat

record src_v4l2_t =
  vs_fd_device :: int
  vs_fps :: int
  dst_fmt :: v4l2_pix_format
  pframe :: int
  finish :: finish_ptr
  req_count :: nat
  buffers :: "nat option"

text \<open>
  A user parameter (\<^verbatim>\<open>struct params_item_ctx\<close>): a name and the value as the user wrote it.
\<close>

record params_item_ctx =
  param_name :: string
  param_value :: string

text \<open>
  The thread context \<^verbatim>\<open>struct context\<close>, reduced to the fields this file reads. The
  list \<^verbatim>\<open>params_array\<close> stands for \<^verbatim>\<open>cnt->vdev->params_array\<close> with its
  \<^verbatim>\<open>params_count\<close> entries, \<^verbatim>\<open>image_norm\<close> for the bytes of
  \<^verbatim>\<open>cnt->imgs.image_vprvcy.image_norm\<close>.
\<close>

record cnt_ctx =
  threadnr :: int
  cnt_video_dev :: int
  cnt_finish :: nat
  conf_video_device :: string
  conf_width :: int
  conf_height :: int
  conf_framerate :: int
  conf_roundrobin_frames :: int
  conf_roundrobin_skip :: int
  conf_auto_brightness :: int
  param_input :: int
  param_norm :: int
  param_freq :: int
  params_array :: "params_item_ctx list"
  update_params :: bool
  imgs_motionsize :: int
  image_norm :: "nat list"

text \<open>
  A device control or one of its menu items (\<^verbatim>\<open>struct vid_devctrl_ctx\<close>).
\<close>

record vid_devctrl_ctx =
  ctrl_id :: nat
  ctrl_type :: int
  ctrl_name :: string
  ctrl_iddesc :: string
  ctrl_default :: int
  ctrl_currval :: int
  ctrl_newval :: int
  ctrl_minimum :: int
  ctrl_maximum :: int
  ctrl_menuitem :: bool

text \<open>
  \<^verbatim>\<open>struct video_dev\<close>. The per-device mutex is the thread that holds it, if any;
  \<^verbatim>\<open>v4l2_private\<close> is \<^verbatim>\<open>None\<close> for the null pointer; the list
  \<^verbatim>\<open>devctrl_array\<close> has \<^verbatim>\<open>devctrl_count\<close> entries.
\<close>

record video_dev =
  video_device :: string
  fd_device :: int
  usage_count :: int
  owner :: int
  frames :: int
  mutex :: "int option"
  dev_input :: int
  dev_norm :: int
  dev_frequency :: int
  dev_width :: int
  dev_height :: int
  dev_fps :: int
  buffer_count :: int
  pixfmt_src :: nat
  devctrl_array :: "vid_devctrl_ctx list"
  starting :: bool
  v4l2_private :: "src_v4l2_t option"

subsection \<open>The retry wrapper\<close>

definition EINTR :: int where
  "EINTR = 4"

text \<open>
  \<^verbatim>\<open>do ret = ioctl(...); while (-1 == ret && EINTR == errno && !vid_source->finish);\<close>

  The second argument lists what the successive \<^verbatim>\<open>ioctl\<close> calls of the kernel answer, each
  a pair of the return value and \<^verbatim>\<open>errno\<close>. The result is the value \<^verbatim>\<open>xioctl\<close> returns
  and the answers it has not consumed, or \<^verbatim>\<open>None\<close> while the loop has not left within
  the answers given. The loop tests the pointer \<^verbatim>\<open>vid_source->finish\<close>, not the flag it
  points to.
\<close>

fun xioctl :: "src_v4l2_t \<Rightarrow> (int \<times> int) list \<Rightarrow> (int \<times> (int \<times> int) list) option" where
  "xioctl vid_source [] = None"
| "xioctl vid_source ((ret, errno) # answers) =
     (if ret = - 1 \<and> errno = EINTR \<and> finish vid_source = NULL
      then xioctl vid_source answers
      else Some (ret, answers))"

text \<open>
  \<^verbatim>\<open>v4l2_device_init\<close>; \<^verbatim>\<open>calloc\<close> is taken to succeed. The structure is zeroed, then
  the fields below are assigned.
\<close>

definition v4l2_device_init :: "cnt_ctx \<Rightarrow> video_dev \<Rightarrow> int \<times> video_dev" where
  "v4l2_device_init cnt curdev =
     (let vid_source = \<lparr> vs_fd_device = fd_device curdev, vs_fps = conf_framerate cnt,
                          dst_fmt = \<lparr> pix_width = 0, pix_height = 0, pix_pixelformat = 0,
                                      pix_bytesperline = 0 \<rparr>,
                          pframe = - 1, finish = Addr_cnt_finish, req_count = 0,
                          buffers = None \<rparr>
      in (0, curdev \<lparr> usage_count := 1, dev_input := param_input cnt,
                       dev_norm := param_norm cnt, dev_frequency := param_freq cnt,
                       dev_height := conf_height cnt, dev_width := conf_width cnt,
                       devctrl_array := [], owner := - 1, dev_fps := 0, buffer_count := 0,
                       v4l2_private := Some vid_source \<rparr>))"

subsection \<open>Strings of the C library and of Motion's utilities\<close>

text \<open>
  \<^verbatim>\<open>atoi\<close> of the C library, which is \<^verbatim>\<open>(int) strtol(nptr, NULL, 10)\<close>: white space is
  skipped, an optional sign is read, then decimal digits up to the first other character
  (\<^verbatim>\<open>strtol_number\<close> is the number so written). \<^verbatim>\<open>strtol\<close> answers with that number, or
  with \<^verbatim>\<open>LONG_MAX\<close> or \<^verbatim>\<open>LONG_MIN\<close> when it is beyond them, and the conversion to \<^verbatim>\<open>int\<close>
  keeps the low 32 bits; so it is in the GNU C library (the C standard leaves the result
  of \<^verbatim>\<open>atoi\<close> undefined for a number that is no \<^verbatim>\<open>int\<close>).
\<close>

definition isspace :: "char \<Rightarrow> bool" where
  "isspace c = (of_char c = (32 :: nat) \<or> (9 \<le> (of_char c :: nat) \<and> of_char c \<le> (13 :: nat)))"

definition isdigit :: "char \<Rightarrow> bool" where
  "isdigit c = (48 \<le> (of_char c :: nat) \<and> of_char c \<le> (57 :: nat))"

fun atoi_digits :: "int \<Rightarrow> string \<Rightarrow> int" where
  "atoi_digits acc [] = acc"
| "atoi_digits acc (c # cs) =
     (if isdigit c then atoi_digits (10 * acc + (of_char c - 48)) cs else acc)"

definition strtol_number :: "string \<Rightarrow> int" where
  "strtol_number s =
     (case dropWhile isspace s of
        [] \<Rightarrow> 0
      | c # cs \<Rightarrow>
          if c = CHR ''-'' then - atoi_digits 0 cs
          else if c = CHR ''+'' then atoi_digits 0 cs
          else atoi_digits 0 (c # cs))"

definition strtol :: "string \<Rightarrow> int" where
  "strtol s =
     (if strtol_number s > LONG_MAX then LONG_MAX
      else if strtol_number s < LONG_MIN then LONG_MIN
      else strtol_number s)"

definition atoi :: "string \<Rightarrow> int" where
  "atoi s = c_int (strtol s)"

text \<open>
  Modelled from the spec: \<^verbatim>\<open>mystreq\<close> and \<^verbatim>\<open>mystrceq\<close> are defined in Motion's
  \<^verbatim>\<open>util.c\<close>, which is not among the sources. The first compares two strings, the second
  compares them without regard to the case of ASCII letters; the spec speaks of a value
  supplied ``under either its symbolic name or its generated identifier string''.
\<close>

definition mystreq :: "string \<Rightarrow> string \<Rightarrow> bool" where
  "mystreq var1 var2 = (var1 = var2)"

definition tolower :: "char \<Rightarrow> char" where
  "tolower c =
     (if 65 \<le> (of_char c :: nat) \<and> of_char c \<le> (90 :: nat)
      then char_of (of_char c + (32 :: nat)) else c)"

definition mystrceq :: "string \<Rightarrow> string \<Rightarrow> bool" where
  "mystrceq var1 var2 = (map tolower var1 = map tolower var2)"

text \<open>
  \<^verbatim>\<open>snprintf(buf, 32, "%d", v)\<close> and \<^verbatim>\<open>sprintf(buf, "ID%08d", id)\<close> of the C library: the
  decimal digits of a number, with a minus sign when it is negative, and the identifier
  text of a control, the digits padded with zeros to eight places.
\<close>

function fmt_nat :: "nat \<Rightarrow> string" where
  "fmt_nat n =
     (if n < 10 then [char_of (48 + n)] else fmt_nat (n div 10) @ [char_of (48 + n mod 10)])"
  by pat_completeness auto
termination
  by (relation "measure id") auto

declare fmt_nat.simps [simp del]

definition fmt_d :: "int \<Rightarrow> string" where
  "fmt_d i = (if i < 0 then CHR ''-'' # fmt_nat (nat (- i)) else fmt_nat (nat i))"

definition fmt_id :: "nat \<Rightarrow> string" where
  "fmt_id n = ''ID'' @ replicate (8 - length (fmt_nat n)) CHR ''0'' @ fmt_nat n"

subsection \<open>The palette catalog\<close>

text \<open>
  The four-character codes come from the kernel header \<^verbatim>\<open>linux/videodev2.h\<close>:
  \<^verbatim>\<open>v4l2_fourcc(a, b, c, d) = a | (b << 8) | (c << 16) | (d << 24)\<close>.
\<close>

definition v4l2_fourcc :: "char \<Rightarrow> char \<Rightarrow> char \<Rightarrow> char \<Rightarrow> nat" where
  "v4l2_fourcc a b c d =
     of_char a + of_char b * 2 ^ 8 + of_char c * 2 ^ 16 + of_char d * 2 ^ 24"

definition V4L2_PIX_FMT_SN9C10X :: nat where
  "V4L2_PIX_FMT_SN9C10X = v4l2_fourcc CHR ''S'' CHR ''9'' CHR ''1'' CHR ''0''"

definition V4L2_PIX_FMT_SBGGR16 :: nat where
  "V4L2_PIX_FMT_SBGGR16 = v4l2_fourcc CHR ''B'' CHR ''Y'' CHR ''R'' CHR ''2''"

definition V4L2_PIX_FMT_SBGGR8 :: nat where
  "V4L2_PIX_FMT_SBGGR8 = v4l2_fourcc CHR ''B'' CHR ''A'' CHR ''8'' CHR ''1''"

definition V4L2_PIX_FMT_SPCA561 :: nat where
  "V4L2_PIX_FMT_SPCA561 = v4l2_fourcc CHR ''S'' CHR ''5'' CHR ''6'' CHR ''1''"

definition V4L2_PIX_FMT_SGBRG8 :: nat where
  "V4L2_PIX_FMT_SGBRG8 = v4l2_fourcc CHR ''G'' CHR ''B'' CHR ''R'' CHR ''G''"

definition V4L2_PIX_FMT_SGRBG8 :: nat where
  "V4L2_PIX_FMT_SGRBG8 = v4l2_fourcc CHR ''G'' CHR ''R'' CHR ''B'' CHR ''G''"

definition V4L2_PIX_FMT_PAC207 :: nat where
  "V4L2_PIX_FMT_PAC207 = v4l2_fourcc CHR ''P'' CHR ''2'' CHR ''0'' CHR ''7''"

definition V4L2_PIX_FMT_PJPG :: nat where
  "V4L2_PIX_FMT_PJPG = v4l2_fourcc CHR ''P'' CHR ''J'' CHR ''P'' CHR ''G''"

definition V4L2_PIX_FMT_MJPEG :: nat where
  "V4L2_PIX_FMT_MJPEG = v4l2_fourcc CHR ''M'' CHR ''J'' CHR ''P'' CHR ''G''"

definition V4L2_PIX_FMT_JPEG :: nat where
  "V4L2_PIX_FMT_JPEG = v4l2_fourcc CHR ''J'' CHR ''P'' CHR ''E'' CHR ''G''"

definition V4L2_PIX_FMT_RGB24 :: nat where
  "V4L2_PIX_FMT_RGB24 = v4l2_fourcc CHR ''R'' CHR ''G'' CHR ''B'' CHR ''3''"

definition V4L2_PIX_FMT_SPCA501 :: nat where
  "V4L2_PIX_FMT_SPCA501 = v4l2_fourcc CHR ''S'' CHR ''5'' CHR ''0'' CHR ''1''"

definition V4L2_PIX_FMT_SPCA505 :: nat where
  "V4L2_PIX_FMT_SPCA505 = v4l2_fourcc CHR ''S'' CHR ''5'' CHR ''0'' CHR ''5''"

definition V4L2_PIX_FMT_SPCA508 :: nat where
  "V4L2_PIX_FMT_SPCA508 = v4l2_fourcc CHR ''S'' CHR ''5'' CHR ''0'' CHR ''8''"

definition V4L2_PIX_FMT_UYVY :: nat where
  "V4L2_PIX_FMT_UYVY = v4l2_fourcc CHR ''U'' CHR ''Y'' CHR ''V'' CHR ''Y''"

definition V4L2_PIX_FMT_YUYV :: nat where
  "V4L2_PIX_FMT_YUYV = v4l2_fourcc CHR ''Y'' CHR ''U'' CHR ''Y'' CHR ''V''"

definition V4L2_PIX_FMT_YUV422P :: nat where
  "V4L2_PIX_FMT_YUV422P = v4l2_fourcc CHR ''4'' CHR ''2'' CHR ''2'' CHR ''P''"

definition V4L2_PIX_FMT_YUV420 :: nat where
  "V4L2_PIX_FMT_YUV420 = v4l2_fourcc CHR ''Y'' CHR ''U'' CHR ''1'' CHR ''2''"

definition V4L2_PIX_FMT_Y10 :: nat where
  "V4L2_PIX_FMT_Y10 = v4l2_fourcc CHR ''Y'' CHR ''1'' CHR ''0'' CHR '' ''"

definition V4L2_PIX_FMT_Y12 :: nat where
  "V4L2_PIX_FMT_Y12 = v4l2_fourcc CHR ''Y'' CHR ''1'' CHR ''2'' CHR '' ''"

definition V4L2_PIX_FMT_GREY :: nat where
  "V4L2_PIX_FMT_GREY = v4l2_fourcc CHR ''G'' CHR ''R'' CHR ''E'' CHR ''Y''"

definition V4L2_PIX_FMT_H264 :: nat where
  "V4L2_PIX_FMT_H264 = v4l2_fourcc CHR ''H'' CHR ''2'' CHR ''6'' CHR ''4''"

definition V4L2_PALETTE_COUNT_MAX :: int where
  "V4L2_PALETTE_COUNT_MAX = 21"

text \<open>
  \<^verbatim>\<open>v4l2_palette_init\<close>: the \<^verbatim>\<open>v4l2id\<close> of the entries 0 to 21 of \<^verbatim>\<open>palette_array\<close>, in
  the order of the source. (The \<^verbatim>\<open>fourcc\<close> text of an entry is only printed.)
\<close>

definition v4l2_palette_init :: "nat list" where
  "v4l2_palette_init =
     [V4L2_PIX_FMT_SN9C10X, V4L2_PIX_FMT_SBGGR16, V4L2_PIX_FMT_SBGGR8, V4L2_PIX_FMT_SPCA561,
      V4L2_PIX_FMT_SGBRG8, V4L2_PIX_FMT_SGRBG8, V4L2_PIX_FMT_PAC207, V4L2_PIX_FMT_PJPG,
      V4L2_PIX_FMT_MJPEG, V4L2_PIX_FMT_JPEG, V4L2_PIX_FMT_RGB24, V4L2_PIX_FMT_SPCA501,
      V4L2_PIX_FMT_SPCA505, V4L2_PIX_FMT_SPCA508, V4L2_PIX_FMT_UYVY, V4L2_PIX_FMT_YUYV,
      V4L2_PIX_FMT_YUV422P, V4L2_PIX_FMT_YUV420, V4L2_PIX_FMT_Y10, V4L2_PIX_FMT_Y12,
      V4L2_PIX_FMT_GREY, V4L2_PIX_FMT_H264]"

subsection \<open>Format negotiation\<close>

text \<open>
  What the device answers. \<^verbatim>\<open>VIDIOC_ENUM_FMT\<close> with index \<open>i\<close> succeeds with the
  \<open>i\<close>-th entry of \<^verbatim>\<open>hw_enum_fmt\<close> and fails beyond the list; \<^verbatim>\<open>VIDIOC_TRY_FMT\<close> and
  \<^verbatim>\<open>VIDIOC_S_FMT\<close> return a code and the format structure as the driver rewrote it.
\<close>

record v4l2_hw =
  hw_enum_fmt :: "nat list"
  hw_try_fmt :: "v4l2_pix_format \<Rightarrow> int \<times> v4l2_pix_format"
  hw_s_fmt :: "v4l2_pix_format \<Rightarrow> int \<times> v4l2_pix_format"

text \<open>The requests a negotiation issues, in order.\<close>

datatype hw_request = VIDIOC_TRY_FMT v4l2_pix_format | VIDIOC_S_FMT v4l2_pix_format
  | VIDIOC_ENUM_FMT nat

text \<open>What stops the program instead of returning.\<close>

datatype fault = Division_by_zero | Out_of_bounds | Null_pointer

text \<open>Conversions between \<^verbatim>\<open>int\<close> and \<^verbatim>\<open>u32\<close>.\<close>

definition u32_of_int :: "int \<Rightarrow> nat" where
  "u32_of_int i = nat (i mod 2 ^ 32)"

definition int_of_u32 :: "nat \<Rightarrow> int" where
  "int_of_u32 n = (if n mod 2 ^ 32 < 2 ^ 31 then int (n mod 2 ^ 32) else int (n mod 2 ^ 32) - 2 ^ 32)"

text \<open>
  \<^verbatim>\<open>v4l2_pixfmt_try\<close>: the structure is zeroed, filled from the configuration and handed to
  the driver; the trial fails when the request fails or the driver answers with another
  pixel format.
\<close>

definition v4l2_pixfmt_try ::
  "v4l2_hw \<Rightarrow> cnt_ctx \<Rightarrow> src_v4l2_t \<Rightarrow> nat \<Rightarrow> int \<times> src_v4l2_t \<times> hw_request list" where
  "v4l2_pixfmt_try hw cnt vid_source pixformat =
     (let fmt = \<lparr> pix_width = u32_of_int (conf_width cnt),
                   pix_height = u32_of_int (conf_height cnt),
                   pix_pixelformat = pixformat, pix_bytesperline = 0 \<rparr>;
          (retcd, fmt') = hw_try_fmt hw fmt;
          vid_source' = vid_source \<lparr> dst_fmt := fmt' \<rparr>
      in if retcd = - 1 \<or> pix_pixelformat fmt' \<noteq> pixformat
         then (- 1, vid_source', [VIDIOC_TRY_FMT fmt])
         else (0, vid_source', [VIDIOC_TRY_FMT fmt]))"

text \<open>
  \<^verbatim>\<open>v4l2_pixfmt_stride\<close>. The remainder \<^verbatim>\<open>bpl % wd\<close> and the quotient by \<^verbatim>\<open>wps\<close> stop
  the program when the divisor is zero.
\<close>

definition v4l2_pixfmt_stride :: "video_dev \<Rightarrow> src_v4l2_t \<Rightarrow> fault + (int \<times> video_dev)" where
  "v4l2_pixfmt_stride curdev vid_source =
     (let curdev1 = curdev \<lparr> dev_width := int_of_u32 (pix_width (dst_fmt vid_source)),
                              dev_height := int_of_u32 (pix_height (dst_fmt vid_source)) \<rparr>;
          bpl = int_of_u32 (pix_bytesperline (dst_fmt vid_source));
          wd = dev_width curdev1
      in if bpl = 0 then Inr (0, curdev1)
         else if wd > bpl then Inr (- 1, curdev1)
         else if wd = bpl then Inr (0, curdev1)
         else if wd = 0 then Inl Division_by_zero
         else if c_mod bpl wd = 0 then Inr (0, curdev1)
         else let wps = c_div bpl wd
              in if wps = 0 then Inl Division_by_zero
                 else Inr (0, curdev1 \<lparr> dev_width := wd + c_div (c_mod bpl wd) wps \<rparr>))"

text \<open>\<^verbatim>\<open>v4l2_pixfmt_adj\<close>: adjust the requested resolution if needed.\<close>

definition v4l2_pixfmt_adj :: "cnt_ctx \<Rightarrow> video_dev \<Rightarrow> int \<times> cnt_ctx" where
  "v4l2_pixfmt_adj cnt curdev =
     (if dev_width curdev \<noteq> conf_width cnt \<or> dev_height curdev \<noteq> conf_height cnt
      then if c_mod (dev_width curdev) 8 \<noteq> 0 \<or> c_mod (dev_height curdev) 8 \<noteq> 0
           then (- 1, cnt)
           else (0, cnt \<lparr> conf_width := dev_width curdev, conf_height := dev_height curdev \<rparr>)
      else (0, cnt))"

text \<open>
  \<^verbatim>\<open>v4l2_pixfmt_set\<close>: trial, stride, adjustment, then the commit by \<^verbatim>\<open>VIDIOC_S_FMT\<close>.
  The result carries the requests issued.
\<close>

definition v4l2_pixfmt_set ::
  "v4l2_hw \<Rightarrow> cnt_ctx \<Rightarrow> video_dev \<Rightarrow> src_v4l2_t \<Rightarrow> nat \<Rightarrow>
     fault + (int \<times> cnt_ctx \<times> video_dev \<times> src_v4l2_t \<times> hw_request list)" where
  "v4l2_pixfmt_set hw cnt curdev vid_source pixformat =
     (case v4l2_pixfmt_try hw cnt vid_source pixformat of
        (retcd, vs1, rq1) \<Rightarrow>
          if retcd = - 1 then Inr (- 1, cnt, curdev, vs1, rq1)
          else
            (case v4l2_pixfmt_stride curdev vs1 of
               Inl f \<Rightarrow> Inl f
             | Inr (retcd, curdev1) \<Rightarrow>
                 if retcd = - 1 then Inr (- 1, cnt, curdev1, vs1, rq1)
                 else
                   (case v4l2_pixfmt_adj cnt curdev1 of
                      (retcd, cnt1) \<Rightarrow>
                        if retcd = - 1 then Inr (- 1, cnt1, curdev1, vs1, rq1)
                        else
                          (case hw_s_fmt hw (dst_fmt vs1) of
                             (retcd, fmt2) \<Rightarrow>
                               if retcd = - 1
                               then Inr (- 1, cnt1, curdev1, vs1 \<lparr> dst_fmt := fmt2 \<rparr>,
                                         rq1 @ [VIDIOC_S_FMT (dst_fmt vs1)])
                               else Inr (0, cnt1, curdev1 \<lparr> pixfmt_src := pixformat \<rparr>,
                                         vs1 \<lparr> dst_fmt := fmt2 \<rparr>,
                                         rq1 @ [VIDIOC_S_FMT (dst_fmt vs1)])))))"







text \<open>
  \<^verbatim>\<open>v4l2_palette_valid\<close>. \<^verbatim>\<open>open\<close> answers with a descriptor or a negative value; the
  formats the opened device advertises are given per descriptor. The catalog is read at
  \<^verbatim>\<open>v4l2_palette\<close> once per advertised format, without a bounds check.
\<close>

definition v4l2_palette_valid ::
  "(string \<Rightarrow> int) \<Rightarrow> (int \<Rightarrow> nat list) \<Rightarrow> string \<Rightarrow> int \<Rightarrow> fault + int" where
  "v4l2_palette_valid os_open os_enum_fmt video_device' v4l2_palette =
     (let fd = os_open video_device'
      in if fd < 0 then Inr 0
         else if os_enum_fmt fd = [] then Inr 0
         else if v4l2_palette < 0 \<or> v4l2_palette > V4L2_PALETTE_COUNT_MAX
         then Inl Out_of_bounds
         else Inr (fold (\<lambda>pixelformat retcd.
                           if v4l2_palette_init ! nat v4l2_palette = pixelformat
                           then 1 else retcd)
                        (os_enum_fmt fd) 0))"

subsection \<open>Device controls\<close>

text \<open>
  Control types and identifiers of the kernel header \<^verbatim>\<open>linux/videodev2.h\<close> and
  \<^verbatim>\<open>linux/v4l2-controls.h\<close>: \<^verbatim>\<open>V4L2_CID_BRIGHTNESS\<close> is \<^verbatim>\<open>0x00980900\<close>,
  \<^verbatim>\<open>V4L2_CID_EXPOSURE\<close> is \<^verbatim>\<open>0x00980911\<close>, \<^verbatim>\<open>V4L2_CID_EXPOSURE_ABSOLUTE\<close> is
  \<^verbatim>\<open>0x009a0902\<close>.
\<close>

definition V4L2_CTRL_TYPE_INTEGER :: int where
  "V4L2_CTRL_TYPE_INTEGER = 1"


definition V4L2_CTRL_TYPE_MENU :: int where
  "V4L2_CTRL_TYPE_MENU = 3"

definition V4L2_CID_BRIGHTNESS :: nat where
  "V4L2_CID_BRIGHTNESS = 9963776"

definition V4L2_CID_EXPOSURE :: nat where
  "V4L2_CID_EXPOSURE = 9963793"

definition V4L2_CID_EXPOSURE_ABSOLUTE :: nat where
  "V4L2_CID_EXPOSURE_ABSOLUTE = 10094850"

text \<open>The messages of the control functions, with the values they print.\<close>

datatype log_entry =
    Wrn_below_minimum string string int
  | Wrn_above_maximum string string int
  | Wrn_type_not_supported
  | Wrn_device_not_ready
  | Wrn_set_failed string string int
  | Wrn_reset_error
  | Wrn_leaving string string int
  | Inf_set_control string int

text \<open>
  The test both \<^verbatim>\<open>v4l2_parms_set\<close> and \<^verbatim>\<open>v4l2_parm_reset\<close> apply to a control and a user
  parameter: the name of the parameter is the identifier text or the name of the control.
\<close>

definition devitem_matches :: "vid_devctrl_ctx \<Rightarrow> params_item_ctx \<Rightarrow> bool" where
  "devitem_matches devitem usritem =
     (mystrceq (ctrl_iddesc devitem) (param_name usritem)
      \<or> mystrceq (ctrl_name devitem) (param_name usritem))"




text \<open>
  \<^verbatim>\<open>v4l2_parm_reset\<close>. Every user parameter that matches the control gets the decimal
  text of the current value; \<^verbatim>\<open>snprintf\<close> writes at most 31 characters, and a longer
  text ends the function at once, before the requested value is reset. The first result
  of \<^verbatim>\<open>parm_reset_users\<close> is the parameter list, the second says whether that happened.
\<close>

fun parm_reset_users ::
  "vid_devctrl_ctx \<Rightarrow> params_item_ctx list \<Rightarrow> params_item_ctx list \<times> bool" where
  "parm_reset_users devitem [] = ([], False)"
| "parm_reset_users devitem (usritem # rest) =
     (if devitem_matches devitem usritem
      then
        if length (fmt_d (ctrl_currval devitem)) > 31
        then (usritem \<lparr> param_value := take 31 (fmt_d (ctrl_currval devitem)) \<rparr> # rest, True)
        else (case parm_reset_users devitem rest of
                (rest', error) \<Rightarrow>
                  (usritem \<lparr> param_value := fmt_d (ctrl_currval devitem) \<rparr> # rest', error))
      else (case parm_reset_users devitem rest of
              (rest', error) \<Rightarrow> (usritem # rest', error)))"

definition v4l2_parm_reset ::
  "params_item_ctx list \<Rightarrow> vid_devctrl_ctx \<Rightarrow>
     params_item_ctx list \<times> vid_devctrl_ctx \<times> log_entry list" where
  "v4l2_parm_reset params devitem =
     (case parm_reset_users devitem params of
        (params', error) \<Rightarrow>
          if error then (params', devitem, [Wrn_reset_error])
          else (params', devitem \<lparr> ctrl_newval := ctrl_currval devitem \<rparr>,
                [Wrn_leaving (ctrl_iddesc devitem) (ctrl_name devitem) (ctrl_currval devitem)]))"

text \<open>
  The state of \<^verbatim>\<open>v4l2_ctrls_set\<close> while it walks the control array: the device behind
  \<^verbatim>\<open>VIDIOC_S_CTRL\<close>, the flag \<^verbatim>\<open>failed\<close>, the requests issued so far (index in the array,
  control identifier, value, code returned), the messages, and the user parameters.
\<close>

record 'h ctrl_run =
  cs_hw :: 'h
  cs_failed :: bool
  cs_attempts :: "(nat \<times> nat \<times> int \<times> int) list"
  cs_logs :: "log_entry list"
  cs_params :: "params_item_ctx list"

text \<open>
  The body of both loops of \<^verbatim>\<open>v4l2_ctrls_set\<close>. \<^verbatim>\<open>s_ctrl\<close> is the device: from its state,
  a control identifier and a value it gives the code of \<^verbatim>\<open>VIDIOC_S_CTRL\<close> and its next
  state. The two loops differ in what follows a failure: the first sets \<^verbatim>\<open>failed\<close>, the
  second (\<^verbatim>\<open>retry\<close>) writes a warning and calls \<^verbatim>\<open>v4l2_parm_reset\<close>.
\<close>

definition ctrls_set_item ::
  "bool \<Rightarrow> ('h \<Rightarrow> nat \<Rightarrow> int \<Rightarrow> int \<times> 'h) \<Rightarrow> bool \<Rightarrow> nat \<Rightarrow> vid_devctrl_ctx \<Rightarrow> 'h ctrl_run \<Rightarrow>
     vid_devctrl_ctx \<times> 'h ctrl_run" where
  "ctrls_set_item retry s_ctrl is_starting indx_dev devitem st =
     (if \<not> ctrl_menuitem devitem \<and> ctrl_currval devitem \<noteq> ctrl_newval devitem
      then
        (case s_ctrl (cs_hw st) (ctrl_id devitem) (ctrl_newval devitem) of
           (retcd, hw') \<Rightarrow>
             (let st1 = st \<lparr> cs_hw := hw',
                             cs_attempts := cs_attempts st
                               @ [(indx_dev, ctrl_id devitem, ctrl_newval devitem, retcd)] \<rparr>
              in if retcd < 0
                 then
                   if retry
                   then
                     (case v4l2_parm_reset (cs_params st1) devitem of
                        (params', devitem', logs) \<Rightarrow>
                          (devitem',
                           st1 \<lparr> cs_params := params',
                                 cs_logs := cs_logs st1
                                   @ [Wrn_set_failed (ctrl_iddesc devitem) (ctrl_name devitem)
                                        (ctrl_newval devitem)]
                                   @ logs \<rparr>))
                   else (devitem, st1 \<lparr> cs_failed := True \<rparr>)
                 else (devitem \<lparr> ctrl_currval := ctrl_newval devitem \<rparr>,
                       if is_starting
                       then st1 \<lparr> cs_logs := cs_logs st1
                                    @ [Inf_set_control (ctrl_name devitem) (ctrl_newval devitem)] \<rparr>
                       else st1)))
      else (devitem, st))"

text \<open>\<^verbatim>\<open>for (indx_dev = 0; indx_dev < curdev->devctrl_count; indx_dev++)\<close>\<close>

fun ctrls_loop ::
  "(nat \<Rightarrow> vid_devctrl_ctx \<Rightarrow> 's \<Rightarrow> vid_devctrl_ctx \<times> 's) \<Rightarrow> nat \<Rightarrow> vid_devctrl_ctx list \<Rightarrow> 's \<Rightarrow>
     vid_devctrl_ctx list \<times> 's" where
  "ctrls_loop body indx_dev [] st = ([], st)"
| "ctrls_loop body indx_dev (devitem # rest) st =
     (case body indx_dev devitem st of
        (devitem', st') \<Rightarrow>
          (case ctrls_loop body (Suc indx_dev) rest st' of
             (rest', st'') \<Rightarrow> (devitem' # rest', st'')))"

text \<open>
  \<^verbatim>\<open>v4l2_ctrls_set\<close>: -1 when the device has no private structure; else the first loop,
  the second one when the first has set \<^verbatim>\<open>failed\<close>, and 0.
\<close>

definition v4l2_ctrls_set ::
  "('h \<Rightarrow> nat \<Rightarrow> int \<Rightarrow> int \<times> 'h) \<Rightarrow> 'h \<Rightarrow> cnt_ctx \<Rightarrow> video_dev \<Rightarrow>
     int \<times> cnt_ctx \<times> video_dev \<times> 'h ctrl_run" where
  "v4l2_ctrls_set s_ctrl hw cnt curdev =
     (let st0 = \<lparr> cs_hw = hw, cs_failed = False, cs_attempts = [], cs_logs = [],
                  cs_params = params_array cnt \<rparr>
      in case v4l2_private curdev of
           None \<Rightarrow> (- 1, cnt, curdev, st0 \<lparr> cs_logs := [Wrn_device_not_ready] \<rparr>)
         | Some vid_source \<Rightarrow>
             (case ctrls_loop (ctrls_set_item False s_ctrl (starting curdev)) 0
                     (devctrl_array curdev) st0 of
                (array1, st1) \<Rightarrow>
                  if cs_failed st1
                  then
                    (case ctrls_loop (ctrls_set_item True s_ctrl (starting curdev)) 0
                            array1 st1 of
                       (array2, st2) \<Rightarrow>
                         (0, cnt \<lparr> params_array := cs_params st2 \<rparr>,
                          curdev \<lparr> devctrl_array := array2 \<rparr>, st2))
                  else (0, cnt, curdev \<lparr> devctrl_array := array1 \<rparr>, st1)))"

subsection \<open>Autobrightness\<close>

text \<open>
  Whether a user parameter names the target of the method (1 brightness, 2 exposure,
  3 absolute exposure), and whether a control is that target.
\<close>

definition autobright_param :: "int \<Rightarrow> params_item_ctx \<Rightarrow> bool" where
  "autobright_param method usritem =
     ((method = 1 \<and> (mystrceq (param_name usritem) ''brightness''
                      \<or> mystrceq (param_name usritem) (fmt_id V4L2_CID_BRIGHTNESS)))
      \<or> (method = 2 \<and> (mystrceq (param_name usritem) ''exposure''
                         \<or> mystrceq (param_name usritem) (fmt_id V4L2_CID_EXPOSURE)))
      \<or> (method = 3 \<and> (mystrceq (param_name usritem) ''exposure (absolute)''
                         \<or> mystrceq (param_name usritem) (fmt_id V4L2_CID_EXPOSURE_ABSOLUTE))))"

definition autobright_control :: "int \<Rightarrow> vid_devctrl_ctx \<Rightarrow> bool" where
  "autobright_control method devitem =
     ((method = 1 \<and> ctrl_id devitem = V4L2_CID_BRIGHTNESS)
      \<or> (method = 2 \<and> ctrl_id devitem = V4L2_CID_EXPOSURE)
      \<or> (method = 3 \<and> ctrl_id devitem = V4L2_CID_EXPOSURE_ABSOLUTE))"

text \<open>The target the user gives, -1 when there is none (the first loop).\<close>

definition autobright_target :: "int \<Rightarrow> params_item_ctx list \<Rightarrow> int" where
  "autobright_target method params =
     fold (\<lambda>usritem target. if autobright_param method usritem
                              then atoi (param_value usritem) else target)
          params (- 1)"

text \<open>
  The second loop: \<^verbatim>\<open>device_value\<close>, \<^verbatim>\<open>parm_max\<close>, \<^verbatim>\<open>parm_min\<close> and \<^verbatim>\<open>target\<close> after the
  walk over the control array. They start at -1, 255, 0 and the target of the user.
  Here and below every sum, difference and product of \<^verbatim>\<open>v4l2_autobright\<close> is an \<^verbatim>\<open>int\<close>.
\<close>

definition autobright_device ::
  "int \<Rightarrow> vid_devctrl_ctx list \<Rightarrow> int \<Rightarrow> int \<times> int \<times> int \<times> int" where
  "autobright_device method array target0 =
     fold (\<lambda>devitem (device_value, parm_max, parm_min, target).
             if autobright_control method devitem
             then (ctrl_currval devitem, ctrl_maximum devitem, ctrl_minimum devitem,
                   if target = - 1
                   then c_div (c_int (ctrl_maximum devitem - ctrl_minimum devitem)) 2
                   else target)
             else (device_value, parm_max, parm_min, target))
          array (- 1, 255, 0, target0)"

text \<open>
  The sample. The loop \<^verbatim>\<open>for (indx = 0; indx < motionsize; indx += 10)\<close> reads the image
  at \<^verbatim>\<open>autobright_read\<close>; an entry of \<^verbatim>\<open>image_norm\<close> stands for the \<^verbatim>\<open>unsigned char\<close> it is
  modulo 256. With a \<^verbatim>\<open>motionsize\<close> above 2147483640 the index wraps around to a negative
  value after the last byte, and the next read is outside the image. The bytes are added
  up, the sum is divided by the number of bytes read, multiplied by the range of the
  control and divided by 255. No byte read means a division by zero.
\<close>

definition autobright_read :: "cnt_ctx \<Rightarrow> nat list" where
  "autobright_read cnt = filter (\<lambda>indx. indx mod 10 = 0) [0 ..< nat (imgs_motionsize cnt)]"

definition autobright_sample :: "cnt_ctx \<Rightarrow> int \<Rightarrow> int \<Rightarrow> fault + int" where
  "autobright_sample cnt parm_max parm_min =
     (let read = autobright_read cnt
      in if list_ex (\<lambda>indx. length (image_norm cnt) \<le> indx) read
            \<or> imgs_motionsize cnt > 2147483640
         then Inl Out_of_bounds
         else if read = [] then Inl Division_by_zero
         else
           (let avg = fold (\<lambda>indx avg. c_int (avg + int (image_norm cnt ! indx mod 256)))
                           read 0;
                avg = c_div avg (int (length read));
                avg = c_int (avg * c_int (parm_max - parm_min))
            in Inr (c_div avg 255)))"

text \<open>
  The window and the step: the new \<^verbatim>\<open>device_value\<close> and \<^verbatim>\<open>make_change\<close>.
\<close>

definition autobright_adjust :: "int \<Rightarrow> int \<Rightarrow> int \<Rightarrow> int \<Rightarrow> int \<Rightarrow> int \<times> bool" where
  "autobright_adjust avg target device_value parm_max parm_min =
     (let parm_hysteresis = 20;
          parm_damper = 20;
          window_high = MIN2 (c_int (target + parm_hysteresis)) parm_max;
          window_low = MAX2 (c_int (target - parm_hysteresis)) parm_min
      in if avg > window_high
         then (let step = MIN2 (c_int (c_div (c_int (avg - target)) parm_damper + 1))
                               (c_int (device_value - parm_min))
               in if device_value > c_int (c_int (step + 1) - parm_min)
                  then (c_int (device_value - step), True)
                  else (parm_min, True))
         else if avg < window_low
         then (let step = MIN2 (c_int (c_div (c_int (target - avg)) parm_damper + 1))
                               (c_int (parm_max - device_value))
               in if device_value < c_int (parm_max - step)
                  then (c_int (device_value + step), True)
                  else (parm_max, True))
         else (device_value, False))"

text \<open>
  \<^verbatim>\<open>v4l2_autobright\<close>. A \<^verbatim>\<open>device_value\<close> of -1 after the second loop is read as ``no
  control found''.
\<close>

definition v4l2_autobright :: "cnt_ctx \<Rightarrow> video_dev \<Rightarrow> int \<Rightarrow> fault + (int \<times> video_dev)" where
  "v4l2_autobright cnt curdev method =
     (if method = 0 \<or> method > 3 then Inr (0, curdev)
      else
        (case autobright_device method (devctrl_array curdev)
                (autobright_target method (params_array cnt)) of
           (device_value, parm_max, parm_min, target) \<Rightarrow>
             if device_value = - 1 then Inr (0, curdev)
             else
               (case autobright_sample cnt parm_max parm_min of
                  Inl f \<Rightarrow> Inl f
                | Inr avg \<Rightarrow>
                    (case autobright_adjust avg target device_value parm_max parm_min of
                       (device_value', make_change) \<Rightarrow>
                         if make_change
                         then Inr (0, curdev \<lparr> devctrl_array :=
                                       map (\<lambda>devitem. if autobright_control method devitem
                                                       then devitem \<lparr> ctrl_newval := device_value' \<rparr>
                                                       else devitem)
                                           (devctrl_array curdev) \<rparr>)
                         else Inr (0, curdev)))))"

subsection \<open>The registry of open devices\<close>

text \<open>
  The list \<^verbatim>\<open>video_devices\<close> is walked from its head to the first device that matches;
  the result gives the devices before it, the device, and the devices after it.
\<close>

fun registry_find ::
  "(video_dev \<Rightarrow> bool) \<Rightarrow> video_dev list \<Rightarrow>
     (video_dev list \<times> video_dev \<times> video_dev list) option" where
  "registry_find P [] = None"
| "registry_find P (dev # rest) =
     (if P dev then Some ([], dev, rest)
      else (case registry_find P rest of
              None \<Rightarrow> None
            | Some (before, found, after) \<Rightarrow> Some (dev # before, found, after)))"

text \<open>
  \<^verbatim>\<open>v4l2_imgs_set\<close>: the thread context takes the dimensions of the device.
\<close>

definition v4l2_imgs_set :: "cnt_ctx \<Rightarrow> video_dev \<Rightarrow> int \<times> cnt_ctx" where
  "v4l2_imgs_set cnt curdev =
     (0, cnt \<lparr> imgs_motionsize := dev_width curdev * dev_height curdev,
               conf_width := dev_width curdev, conf_height := dev_height curdev \<rparr>)"

text \<open>
  The steps of \<^verbatim>\<open>v4l2_start\<close> for a device that is not open yet, in the order of the
  source. Each runs only while \<^verbatim>\<open>retcd\<close> is 0.
\<close>

datatype start_step = Device_init | Device_open | Device_capability | Input_select
  | Norm_select | Frequency_select | Pixfmt_select | Fps_set | Ctrls_count | Ctrls_list
  | Parms_set | Ctrls_set | Mmap_set | Imgs_set

text \<open>
  What the system answers while a device is started: the descriptor \<^verbatim>\<open>open\<close> returns,
  the code each later step returns, and what these steps leave in the device structure
  when all succeed (dimensions, pixel format, controls, mapped buffers). The steps that
  follow \<^verbatim>\<open>v4l2_device_open\<close> are not modelled one by one here; none of them assigns
  \<^verbatim>\<open>usage_count\<close>, \<^verbatim>\<open>owner\<close>, \<^verbatim>\<open>fd_device\<close> or \<^verbatim>\<open>video_device\<close>.
\<close>

record start_hw =
  sh_open :: "string \<Rightarrow> int"
  sh_retcd :: "start_step \<Rightarrow> int"
  sh_width :: int
  sh_height :: int
  sh_pixfmt :: nat
  sh_controls :: "vid_devctrl_ctx list"
  sh_buffers :: nat

text \<open>The memory \<^verbatim>\<open>mymalloc\<close> returns for a new \<^verbatim>\<open>struct video_dev\<close>, zeroed.\<close>

definition video_dev_alloc :: video_dev where
  "video_dev_alloc =
     \<lparr> video_device = [], fd_device = 0, usage_count = 0, owner = 0, frames = 0,
       mutex = None, dev_input = 0, dev_norm = 0, dev_frequency = 0, dev_width = 0,
       dev_height = 0, dev_fps = 0, buffer_count = 0, pixfmt_src = 0, devctrl_array = [],
       starting = False, v4l2_private = None \<rparr>"

text \<open>
  \<^verbatim>\<open>v4l2_device_open\<close>: a descriptor above 0 is stored in the device and in its private
  structure; anything else is a failure.
\<close>

definition v4l2_device_open :: "start_hw \<Rightarrow> cnt_ctx \<Rightarrow> video_dev \<Rightarrow> fault + (int \<times> video_dev)" where
  "v4l2_device_open hw cnt curdev =
     (let curdev1 = curdev \<lparr> video_device := conf_video_device cnt, fd_device := - 1 \<rparr>;
          fd = sh_open hw (video_device curdev1)
      in if fd > 0
         then (case v4l2_private curdev1 of
                 None \<Rightarrow> Inl Null_pointer
               | Some vid_source \<Rightarrow>
                   Inr (0, curdev1 \<lparr> fd_device := fd,
                                     v4l2_private := Some (vid_source \<lparr> vs_fd_device := fd \<rparr>) \<rparr>))
         else Inr (- 1, curdev1))"

text \<open>
  One step of the chain: \<^verbatim>\<open>if (retcd == 0) retcd = step(...)\<close>. The state is the code so
  far, the device, and the steps that ran.
\<close>

definition start_run ::
  "start_hw \<Rightarrow> cnt_ctx \<Rightarrow> start_step \<Rightarrow> fault + (int \<times> video_dev \<times> start_step list) \<Rightarrow>
     fault + (int \<times> video_dev \<times> start_step list)" where
  "start_run hw cnt step state =
     (case state of
        Inl f \<Rightarrow> Inl f
      | Inr (retcd, curdev, steps) \<Rightarrow>
          if retcd \<noteq> 0 then Inr (retcd, curdev, steps)
          else
            (case step of
               Device_init \<Rightarrow>
                 (case v4l2_device_init cnt curdev of
                    (r, curdev') \<Rightarrow> Inr (r, curdev', steps @ [step]))
             | Device_open \<Rightarrow>
                 (case v4l2_device_open hw cnt curdev of
                    Inl f \<Rightarrow> Inl f
                  | Inr (r, curdev') \<Rightarrow> Inr (r, curdev', steps @ [step]))
             | _ \<Rightarrow> Inr (sh_retcd hw step, curdev, steps @ [step])))"

definition start_steps :: "start_step list" where
  "start_steps =
     [Device_init, Device_open, Device_capability, Input_select, Norm_select,
      Frequency_select, Pixfmt_select, Fps_set, Ctrls_count, Ctrls_list, Parms_set,
      Ctrls_set, Mmap_set, Imgs_set]"

text \<open>What the steps after the open leave in the device when all of them succeed.\<close>

definition start_negotiated :: "start_hw \<Rightarrow> video_dev \<Rightarrow> video_dev" where
  "start_negotiated hw curdev =
     curdev \<lparr> dev_width := sh_width hw, dev_height := sh_height hw,
              pixfmt_src := sh_pixfmt hw, devctrl_array := sh_controls hw,
              buffer_count := int (sh_buffers hw),
              v4l2_private :=
                map_option (\<lambda>vid_source. vid_source \<lparr> req_count := sh_buffers hw,
                                                       buffers := Some (sh_buffers hw) \<rparr>)
                           (v4l2_private curdev) \<rparr>"

text \<open>
  \<^verbatim>\<open>v4l2_start\<close>. The result is the value returned (the descriptor of the device, or a
  negative code), the thread context, the registry, and the steps that ran. A device
  whose path is in the registry is used as it is: its \<^verbatim>\<open>usage_count\<close> is incremented and
  its descriptor returned. (What \<^verbatim>\<open>v4l2_vdev_init\<close> and \<^verbatim>\<open>vid_parms_parse\<close> do to the
  user parameters of the context is left out.)
\<close>

definition v4l2_start ::
  "start_hw \<Rightarrow> cnt_ctx \<Rightarrow> video_dev list \<Rightarrow>
     fault + (int \<times> cnt_ctx \<times> video_dev list \<times> start_step list)" where
  "v4l2_start hw cnt video_devices =
     (case registry_find (\<lambda>curdev. mystreq (conf_video_device cnt) (video_device curdev))
             video_devices of
        Some (before, curdev, after) \<Rightarrow>
          (case v4l2_imgs_set cnt curdev of
             (retcd, cnt') \<Rightarrow>
               if retcd = 0
               then Inr (fd_device curdev, cnt',
                         before @ curdev \<lparr> usage_count := usage_count curdev + 1 \<rparr> # after, [])
               else Inr (retcd, cnt', video_devices, []))
      | None \<Rightarrow>
          (case fold (start_run hw cnt) start_steps
                  (Inr (0, video_dev_alloc \<lparr> starting := True \<rparr>, [])) of
             Inl f \<Rightarrow> Inl f
           | Inr (retcd, curdev, steps) \<Rightarrow>
               if retcd < 0 then Inr (retcd, cnt, video_devices, steps)
               else
                 (let curdev' = (start_negotiated hw curdev) \<lparr> starting := False \<rparr>
                  in Inr (fd_device curdev', snd (v4l2_imgs_set cnt curdev'),
                          curdev' # video_devices, steps))))"

text \<open>What a teardown does to the system, in order.\<close>

datatype hw_event = Stream_off int | Close_descriptor int | Munmap nat | Free_buffers
  | Free_private | Free_controls | Mutex_destroy | Free_device

text \<open>
  \<^verbatim>\<open>v4l2_device_close\<close>: stream-off when the private structure is there, then the
  descriptor of that structure is closed (read through the pointer without a test).
\<close>

definition v4l2_device_close :: "video_dev \<Rightarrow> fault + (video_dev \<times> hw_event list)" where
  "v4l2_device_close curdev =
     (case v4l2_private curdev of
        None \<Rightarrow> Inl Null_pointer
      | Some vid_source \<Rightarrow>
          if vs_fd_device vid_source \<noteq> - 1
          then Inr (curdev \<lparr> v4l2_private := Some (vid_source \<lparr> vs_fd_device := - 1 \<rparr>) \<rparr>,
                    [Stream_off (vs_fd_device vid_source),
                     Close_descriptor (vs_fd_device vid_source)])
          else Inr (curdev, [Stream_off (vs_fd_device vid_source)]))"

text \<open>
  \<^verbatim>\<open>v4l2_device_cleanup\<close>: the buffers are unmapped and freed, then the private
  structure, then the control list.
\<close>

definition v4l2_device_cleanup :: "video_dev \<Rightarrow> fault + (video_dev \<times> hw_event list)" where
  "v4l2_device_cleanup curdev =
     (case v4l2_private curdev of
        None \<Rightarrow> Inl Null_pointer
      | Some vid_source \<Rightarrow>
          Inr (curdev \<lparr> v4l2_private := None, devctrl_array := [] \<rparr>,
               (case buffers vid_source of
                  None \<Rightarrow> []
                | Some n \<Rightarrow> map Munmap [0 ..< req_count vid_source] @ [Free_buffers])
               @ [Free_private]
               @ (if devctrl_array curdev \<noteq> [] then [Free_controls] else [])))"

text \<open>
  \<^verbatim>\<open>v4l2_cleanup\<close>. The device is looked up by the descriptor the thread holds, which is
  then forgotten. The decrement that reaches zero closes the device and takes it out of
  the list; any other leaves it there, released if the thread owned it.
\<close>

definition v4l2_cleanup ::
  "cnt_ctx \<Rightarrow> video_dev list \<Rightarrow> fault + (cnt_ctx \<times> video_dev list \<times> hw_event list)" where
  "v4l2_cleanup cnt video_devices =
     (let cnt' = cnt \<lparr> cnt_video_dev := - 1 \<rparr>
      in case registry_find (\<lambda>dev. fd_device dev = cnt_video_dev cnt) video_devices of
           None \<Rightarrow> Inr (cnt', video_devices, [])
         | Some (before, dev, after) \<Rightarrow>
             (let dev1 = dev \<lparr> usage_count := usage_count dev - 1 \<rparr>
              in if usage_count dev1 = 0
                 then
                   (case v4l2_device_close dev1 of
                      Inl f \<Rightarrow> Inl f
                    | Inr (dev2, closing) \<Rightarrow>
                        (case v4l2_device_cleanup dev2 of
                           Inl f \<Rightarrow> Inl f
                         | Inr (dev3, freeing) \<Rightarrow>
                             Inr (cnt', before @ after,
                                  closing @ freeing @ [Mutex_destroy, Free_device])))
                 else if owner dev1 = threadnr cnt
                 then Inr (cnt', before @ dev1 \<lparr> frames := 0, owner := - 1,
                                                 mutex := None \<rparr> # after, [])
                 else Inr (cnt', before @ dev1 # after, [])))"

subsection \<open>Round-robin ownership\<close>

text \<open>What a call does to the per-device mutex.\<close>

datatype own_event = Acquire int | Release int

text \<open>
  The body of \<^verbatim>\<open>v4l2_next\<close> once the device is found. \<^verbatim>\<open>capture\<close> and \<^verbatim>\<open>pix_change\<close>
  are the codes \<^verbatim>\<open>v4l2_capture\<close> and \<^verbatim>\<open>v4l2_pix_change\<close> return for this frame; the
  second is called only after the first returned 0. The result is \<^verbatim>\<open>None\<close> when the
  thread has to wait in \<^verbatim>\<open>pthread_mutex_lock\<close>. (\<^verbatim>\<open>v4l2_device_select\<close>, called between
  the two tests, assigns none of \<^verbatim>\<open>owner\<close>, \<^verbatim>\<open>frames\<close> and the mutex.)
\<close>

definition next_on_device ::
  "cnt_ctx \<Rightarrow> int \<Rightarrow> int \<Rightarrow> video_dev \<Rightarrow> (int \<times> video_dev \<times> own_event list) option" where
  "next_on_device cnt capture pix_change dev =
     (if owner dev \<noteq> threadnr cnt \<and> mutex dev \<noteq> None then None
      else
        (let acquired = (owner dev \<noteq> threadnr cnt);
             dev1 = (if acquired
                     then dev \<lparr> mutex := Some (threadnr cnt), owner := threadnr cnt,
                                frames := conf_roundrobin_frames cnt \<rparr>
                     else dev);
             retcd = (if capture = 0 then pix_change else capture);
             dev2 = dev1 \<lparr> frames := frames dev1 - 1 \<rparr>;
             released = (frames dev2 \<le> 0);
             dev3 = (if released then dev2 \<lparr> owner := - 1, frames := 0, mutex := None \<rparr>
                     else dev2)
         in Some (retcd, dev3,
                  (if acquired then [Acquire (threadnr cnt)] else [])
                  @ (if released then [Release (threadnr cnt)] else []))))"

text \<open>\<^verbatim>\<open>v4l2_next\<close>: -1 when no device has the descriptor of the thread.\<close>

definition v4l2_next ::
  "cnt_ctx \<Rightarrow> int \<Rightarrow> int \<Rightarrow> video_dev list \<Rightarrow>
     (int \<times> video_dev list \<times> own_event list) option" where
  "v4l2_next cnt capture pix_change video_devices =
     (case registry_find (\<lambda>dev. fd_device dev = cnt_video_dev cnt) video_devices of
        None \<Rightarrow> Some (- 1, video_devices, [])
      | Some (before, dev, after) \<Rightarrow>
          (case next_on_device cnt capture pix_change dev of
             None \<Rightarrow> None
           | Some (retcd, dev', events) \<Rightarrow> Some (retcd, before @ dev' # after, events)))"

text \<open>
  Calls of \<^verbatim>\<open>v4l2_next\<close> one after the other, each with its thread context and the two
  codes of its frame; \<^verbatim>\<open>None\<close> when one of them has to wait. The events of all calls
  are collected.
\<close>

fun next_calls ::
  "(cnt_ctx \<times> int \<times> int) list \<Rightarrow> video_dev list \<Rightarrow> (video_dev list \<times> own_event list) option" where
  "next_calls [] video_devices = Some (video_devices, [])"
| "next_calls ((cnt, capture, pix_change) # calls) video_devices =
     (case v4l2_next cnt capture pix_change video_devices of
        None \<Rightarrow> None
      | Some (retcd, video_devices', events) \<Rightarrow>
          (case next_calls calls video_devices' of
             None \<Rightarrow> None
           | Some (video_devices'', events') \<Rightarrow> Some (video_devices'', events @ events')))"

text \<open>Two consumers taking turns: \<open>x, y, x, y, \<dots>\<close>\<close>

fun alternate :: "nat \<Rightarrow> 'a \<Rightarrow> 'a \<Rightarrow> 'a list" where
  "alternate 0 x y = []"
| "alternate (Suc n) x y = x # alternate n y x"

subsection \<open>Reading the outcome of a call\<close>

text \<open>
  The code \<^verbatim>\<open>v4l2_next\<close> returns for a frame, a device as a release leaves it, a
  device as thread \<open>thread\<close> owns it with \<open>quota\<close> frames left, the two events of a
  consumer that takes a single frame, and the events of a teardown.
\<close>

definition frame_retcd :: "int \<Rightarrow> int \<Rightarrow> int" where
  "frame_retcd capture pix_change = (if capture = 0 then pix_change else capture)"

definition released :: "video_dev \<Rightarrow> video_dev" where
  "released dev = dev \<lparr> mutex := None, owner := - 1, frames := 0 \<rparr>"

definition owned :: "int \<Rightarrow> int \<Rightarrow> video_dev \<Rightarrow> video_dev" where
  "owned thread quota dev = dev \<lparr> mutex := Some thread, owner := thread, frames := quota \<rparr>"

definition turn_events :: "cnt_ctx \<Rightarrow> own_event list" where
  "turn_events cnt = [Acquire (threadnr cnt), Release (threadnr cnt)]"

definition teardown_events :: "video_dev \<Rightarrow> src_v4l2_t \<Rightarrow> hw_event list" where
  "teardown_events dev vid_source =
     Stream_off (vs_fd_device vid_source)
     # (if vs_fd_device vid_source \<noteq> - 1 then [Close_descriptor (vs_fd_device vid_source)] else [])
     @ (case buffers vid_source of
          None \<Rightarrow> []
        | Some n \<Rightarrow> map Munmap [0 ..< req_count vid_source] @ [Free_buffers])
     @ [Free_private]
     @ (if devctrl_array dev \<noteq> [] then [Free_controls] else [])
     @ [Mutex_destroy, Free_device]"

subsection \<open>Reading the requests of a negotiation\<close>








subsection \<open>Reading a staged control value\<close>

text \<open>
  The device after the last loop of \<^verbatim>\<open>v4l2_autobright\<close> has written \<open>staged\<close> into
  \<^verbatim>\<open>ctrl_newval\<close> of the control of the method.
\<close>

definition autobright_staged :: "int \<Rightarrow> int \<Rightarrow> video_dev \<Rightarrow> video_dev" where
  "autobright_staged method staged curdev =
     curdev \<lparr> devctrl_array :=
                map (\<lambda>devitem. if autobright_control method devitem
                                then devitem \<lparr> ctrl_newval := staged \<rparr> else devitem)
                    (devctrl_array curdev) \<rparr>"

subsection \<open>Reading the result of a pass over the controls\<close>



text \<open>
  For \<^verbatim>\<open>v4l2_ctrls_set\<close>: a control is pending when it is no menu item and its requested
  value differs from its current one. The outcome of a pass for one control is the code of
  its \<^verbatim>\<open>VIDIOC_S_CTRL\<close>, or nothing when the pass issued none. From the array and the
  outcomes of a pass follow the requests the pass issued, in order; the controls whose
  request failed; and, with the outcomes of both passes, what becomes of a control.
  \<^verbatim>\<open>parm_rewrite\<close> writes the current value of a control into the user parameters that
  match it, \<^verbatim>\<open>rollback_warnings\<close> are the two warnings of a rollback, \<^verbatim>\<open>warnings\<close> drops
  the informational messages, and \<^verbatim>\<open>s_ctrl_run\<close> puts a list of requests to the device.
\<close>

definition ctrl_pending :: "vid_devctrl_ctx \<Rightarrow> bool" where
  "ctrl_pending devitem =
     (\<not> ctrl_menuitem devitem \<and> ctrl_currval devitem \<noteq> ctrl_newval devitem)"

definition outcome_failed :: "int option \<Rightarrow> bool" where
  "outcome_failed outcome = (case outcome of None \<Rightarrow> False | Some retcd \<Rightarrow> retcd < 0)"

definition outcome_set :: "int option \<Rightarrow> bool" where
  "outcome_set outcome = (case outcome of None \<Rightarrow> False | Some retcd \<Rightarrow> \<not> retcd < 0)"

fun pass_attempts ::
  "nat \<Rightarrow> vid_devctrl_ctx list \<Rightarrow> int option list \<Rightarrow> (nat \<times> nat \<times> int \<times> int) list" where
  "pass_attempts indx_dev (devitem # array) (outcome # outcomes) =
     (case outcome of
        None \<Rightarrow> []
      | Some retcd \<Rightarrow> [(indx_dev, ctrl_id devitem, ctrl_newval devitem, retcd)])
     @ pass_attempts (Suc indx_dev) array outcomes"
| "pass_attempts indx_dev array outcomes = []"

definition ctrl_settled :: "vid_devctrl_ctx \<Rightarrow> int option \<Rightarrow> int option \<Rightarrow> vid_devctrl_ctx" where
  "ctrl_settled devitem outcome again =
     (if outcome_set outcome \<or> outcome_set again
      then devitem \<lparr> ctrl_currval := ctrl_newval devitem \<rparr>
      else if outcome_failed again
      then devitem \<lparr> ctrl_newval := ctrl_currval devitem \<rparr>
      else devitem)"

definition rolled_back :: "vid_devctrl_ctx list \<Rightarrow> int option list \<Rightarrow> vid_devctrl_ctx list" where
  "rolled_back array outcomes =
     map fst (filter (\<lambda>(devitem, outcome). outcome_failed outcome) (zip array outcomes))"

definition parm_rewrite :: "vid_devctrl_ctx \<Rightarrow> params_item_ctx list \<Rightarrow> params_item_ctx list" where
  "parm_rewrite devitem params =
     map (\<lambda>usritem. if devitem_matches devitem usritem
                     then usritem \<lparr> param_value := fmt_d (ctrl_currval devitem) \<rparr>
                     else usritem)
         params"

definition rollback_warnings :: "vid_devctrl_ctx \<Rightarrow> log_entry list" where
  "rollback_warnings devitem =
     [Wrn_set_failed (ctrl_iddesc devitem) (ctrl_name devitem) (ctrl_newval devitem),
      Wrn_leaving (ctrl_iddesc devitem) (ctrl_name devitem) (ctrl_currval devitem)]"

definition warnings :: "log_entry list \<Rightarrow> log_entry list" where
  "warnings logs =
     filter (\<lambda>entry. case entry of Inf_set_control name v \<Rightarrow> False | _ \<Rightarrow> True) logs"

fun s_ctrl_run ::
  "('h \<Rightarrow> nat \<Rightarrow> int \<Rightarrow> int \<times> 'h) \<Rightarrow> 'h \<Rightarrow> (nat \<times> nat \<times> int \<times> int) list \<Rightarrow> int list \<times> 'h" where
  "s_ctrl_run s_ctrl hw [] = ([], hw)"
| "s_ctrl_run s_ctrl hw ((indx_dev, cid, v, retcd) # rest) =
     (case s_ctrl hw cid v of
        (retcd', hw') \<Rightarrow>
          (case s_ctrl_run s_ctrl hw' rest of
             (retcds, hw'') \<Rightarrow> (retcd' # retcds, hw'')))"

section \<open>Example inputs\<close>

text \<open>
  A thread context asking for 640 by 480, a device structure as \<^verbatim>\<open>v4l2_start\<close> has it
  during start-up, and drivers: one that accepts YUYV only, one whose stride is half the
  width, one that pads each row by 16 bytes.
\<close>

definition example_cnt :: cnt_ctx where
  "example_cnt = \<lparr> threadnr = 1, cnt_video_dev = 5, cnt_finish = 0,
      conf_video_device = ''/dev/video0'', conf_width = 640, conf_height = 480,
      conf_framerate = 15, conf_roundrobin_frames = 1, conf_roundrobin_skip = 1,
      conf_auto_brightness = 1, param_input = - 1, param_norm = 0, param_freq = 0,
      params_array = [], update_params = True, imgs_motionsize = 640 * 480,
      image_norm = [] \<rparr>"

definition example_src :: src_v4l2_t where
  "example_src = \<lparr> vs_fd_device = 5, vs_fps = 15,
      dst_fmt = \<lparr> pix_width = 0, pix_height = 0, pix_pixelformat = 0, pix_bytesperline = 0 \<rparr>,
      pframe = - 1, finish = Addr_cnt_finish, req_count = 0, buffers = None \<rparr>"

definition example_dev :: video_dev where
  "example_dev = \<lparr> video_device = ''/dev/video0'', fd_device = 5, usage_count = 1,
      owner = - 1, frames = 0, mutex = None, dev_input = - 1, dev_norm = 0,
      dev_frequency = 0, dev_width = 640, dev_height = 480, dev_fps = 0, buffer_count = 0,
      pixfmt_src = 0, devctrl_array = [], starting = True,
      v4l2_private = Some example_src \<rparr>"





definition hw_half_stride :: v4l2_hw where
  "hw_half_stride = \<lparr> hw_enum_fmt = [V4L2_PIX_FMT_YUV420],
      hw_try_fmt = (\<lambda>fmt. (0, fmt \<lparr> pix_bytesperline := pix_width fmt div 2 \<rparr>)),
      hw_s_fmt = (\<lambda>fmt. (0, fmt)) \<rparr>"

definition hw_padded :: v4l2_hw where
  "hw_padded = \<lparr> hw_enum_fmt = [V4L2_PIX_FMT_YUYV],
      hw_try_fmt = (\<lambda>fmt. (0, fmt \<lparr> pix_bytesperline := 2 * pix_width fmt + 16 \<rparr>)),
      hw_s_fmt = (\<lambda>fmt. (0, fmt)) \<rparr>"

definition example_open :: "string \<Rightarrow> int" where
  "example_open path = (if path = ''/dev/video0'' then 5 else - 1)"

definition example_enum_fmt :: "int \<Rightarrow> nat list" where
  "example_enum_fmt fd = [V4L2_PIX_FMT_YUYV, V4L2_PIX_FMT_MJPEG]"

text \<open>
  A second consumer of the same device, a consumer with a quota of three frames, a
  system where every step of a start succeeds, and the device it leaves in the registry.
\<close>

definition example_cnt_other :: cnt_ctx where
  "example_cnt_other = example_cnt \<lparr> threadnr := 2 \<rparr>"

definition example_cnt_quota :: cnt_ctx where
  "example_cnt_quota = example_cnt \<lparr> conf_roundrobin_frames := 3 \<rparr>"

definition example_start_hw :: start_hw where
  "example_start_hw =
     \<lparr> sh_open = (\<lambda>path. if path = ''/dev/video0'' then 5 else - 1),
       sh_retcd = (\<lambda>step. 0), sh_width = 640, sh_height = 480,
       sh_pixfmt = V4L2_PIX_FMT_YUV420, sh_controls = [], sh_buffers = 4 \<rparr>"

definition example_opened :: video_dev where
  "example_opened =
     \<lparr> video_device = ''/dev/video0'', fd_device = 5, usage_count = 1, owner = - 1,
       frames = 0, mutex = None, dev_input = - 1, dev_norm = 0, dev_frequency = 0,
       dev_width = 640, dev_height = 480, dev_fps = 0, buffer_count = 4,
       pixfmt_src = V4L2_PIX_FMT_YUV420, devctrl_array = [], starting = False,
       v4l2_private = Some \<lparr> vs_fd_device = 5, vs_fps = 15,
          dst_fmt = \<lparr> pix_width = 0, pix_height = 0, pix_pixelformat = 0,
                      pix_bytesperline = 0 \<rparr>,
          pframe = - 1, finish = Addr_cnt_finish, req_count = 4, buffers = Some 4 \<rparr> \<rparr>"

text \<open>
  A brightness control with the range 0 to 255, a device whose only control it is, at a
  given current value, and a thread whose image has the same luminance in every byte.
\<close>

definition example_brightness :: vid_devctrl_ctx where
  "example_brightness =
     \<lparr> ctrl_id = V4L2_CID_BRIGHTNESS, ctrl_type = V4L2_CTRL_TYPE_INTEGER,
       ctrl_name = ''Brightness'', ctrl_iddesc = ''ID09963776'', ctrl_default = 128,
       ctrl_currval = 100, ctrl_newval = 100, ctrl_minimum = 0, ctrl_maximum = 255,
       ctrl_menuitem = False \<rparr>"

definition example_dev_brightness :: "int \<Rightarrow> video_dev" where
  "example_dev_brightness current =
     example_dev \<lparr> starting := False,
                   devctrl_array := [example_brightness \<lparr> ctrl_currval := current,
                                                          ctrl_newval := current \<rparr>] \<rparr>"

definition example_cnt_image :: "nat \<Rightarrow> cnt_ctx" where
  "example_cnt_image luminance =
     example_cnt \<lparr> imgs_motionsize := 20, image_norm := replicate 30 luminance \<rparr>"

text \<open>
  The same device with a brightness control of the range 0 to 100000000, at 50000000:
  the product of the sample and this range does not fit the 32 bits of an \<^verbatim>\<open>int\<close>.
\<close>

definition example_dev_wide :: video_dev where
  "example_dev_wide =
     example_dev \<lparr> starting := False,
                   devctrl_array := [example_brightness \<lparr> ctrl_maximum := 100000000,
                                                          ctrl_currval := 50000000,
                                                          ctrl_newval := 50000000 \<rparr>] \<rparr>"





text \<open>
  A device with an exposure control, the menu that unlocks it, and the brightness control,
  each with a requested value that differs from the current one, and a driver that
  accepts the exposure only in manual mode (menu value 1) and never accepts the brightness.
\<close>

definition example_exposure :: vid_devctrl_ctx where
  "example_exposure =
     \<lparr> ctrl_id = V4L2_CID_EXPOSURE_ABSOLUTE, ctrl_type = V4L2_CTRL_TYPE_INTEGER,
       ctrl_name = ''Exposure (Absolute)'', ctrl_iddesc = ''ID10094850'', ctrl_default = 156,
       ctrl_currval = 156, ctrl_newval = 300, ctrl_minimum = 1, ctrl_maximum = 5000,
       ctrl_menuitem = False \<rparr>"

definition example_exposure_auto :: vid_devctrl_ctx where
  "example_exposure_auto =
     \<lparr> ctrl_id = 10094849, ctrl_type = V4L2_CTRL_TYPE_MENU,
       ctrl_name = ''Exposure, Auto'', ctrl_iddesc = ''ID10094849'', ctrl_default = 3,
       ctrl_currval = 3, ctrl_newval = 1, ctrl_minimum = 0, ctrl_maximum = 3,
       ctrl_menuitem = False \<rparr>"

definition example_dev_pending :: video_dev where
  "example_dev_pending =
     example_dev \<lparr> starting := False,
                   devctrl_array := [example_exposure, example_exposure_auto,
                                     example_brightness \<lparr> ctrl_newval := 200 \<rparr>] \<rparr>"

definition example_cnt_pending :: cnt_ctx where
  "example_cnt_pending =
     example_cnt \<lparr> params_array := [\<lparr> param_name = ''brightness'', param_value = ''200'' \<rparr>,
                                      \<lparr> param_name = ''ID10094850'', param_value = ''300'' \<rparr>] \<rparr>"

definition example_s_ctrl :: "bool \<Rightarrow> nat \<Rightarrow> int \<Rightarrow> int \<times> bool" where
  "example_s_ctrl manual cid v =
     (if cid = 10094849 then (0, v = 1)
      else if cid = V4L2_CID_EXPOSURE_ABSOLUTE then (if manual then 0 else - 1, manual)
      else (- 1, manual))"

section \<open>Properties\<close>

subsection \<open>Interrupted requests\<close>

lemma xioctl_finish_set:
  "finish vid_source \<noteq> NULL \<Longrightarrow> xioctl vid_source ((ret, errno) # answers) = Some (ret, answers)"
  by simp

text \<open>
  C1. The claim: an \<^verbatim>\<open>ioctl\<close> that fails with \<^verbatim>\<open>EINTR\<close> while the shutdown flag is clear is
  issued again. On a device set up by \<^verbatim>\<open>v4l2_device_init\<close> the code does not: whatever
  the value of the flag \<^verbatim>\<open>cnt->finish\<close> (zero included) and whatever the kernel would
  answer next, the first interrupted call is what \<^verbatim>\<open>xioctl\<close> returns, and no further
  answer is consumed.
\<close>

theorem xioctl_initialised_device_never_retries:
  "(case v4l2_private (snd (v4l2_device_init (cnt \<lparr> cnt_finish := 0 \<rparr>) curdev)) of
      None \<Rightarrow> False
    | Some vid_source \<Rightarrow>
        xioctl vid_source ((- 1, EINTR) # (0, 0) # answers) = Some (- 1, (0, 0) # answers))"
  by (simp add: v4l2_device_init_def)

subsection \<open>Format negotiation\<close>

lemma c_div_nonneg: "0 \<le> a \<Longrightarrow> 0 < b \<Longrightarrow> c_div a b = a div b"
  by (cases "a = 0") (simp_all add: c_div_def)

lemma c_mod_nonneg: "0 \<le> a \<Longrightarrow> 0 < b \<Longrightarrow> c_mod a b = a mod b"
  by (simp add: c_mod_def c_div_nonneg minus_mult_div_eq_mod)




















lemmas pixfmt_values =
  v4l2_fourcc_def V4L2_PIX_FMT_SN9C10X_def V4L2_PIX_FMT_SBGGR16_def V4L2_PIX_FMT_SBGGR8_def
  V4L2_PIX_FMT_SPCA561_def V4L2_PIX_FMT_SGBRG8_def V4L2_PIX_FMT_SGRBG8_def
  V4L2_PIX_FMT_PAC207_def V4L2_PIX_FMT_PJPG_def V4L2_PIX_FMT_MJPEG_def V4L2_PIX_FMT_JPEG_def
  V4L2_PIX_FMT_RGB24_def V4L2_PIX_FMT_SPCA501_def V4L2_PIX_FMT_SPCA505_def
  V4L2_PIX_FMT_SPCA508_def V4L2_PIX_FMT_UYVY_def V4L2_PIX_FMT_YUYV_def
  V4L2_PIX_FMT_YUV422P_def V4L2_PIX_FMT_YUV420_def V4L2_PIX_FMT_Y10_def V4L2_PIX_FMT_Y12_def
  V4L2_PIX_FMT_GREY_def V4L2_PIX_FMT_H264_def







lemma palette_17: "v4l2_palette_init ! 17 = V4L2_PIX_FMT_YUV420" "v4l2_palette_init ! 8 = V4L2_PIX_FMT_MJPEG"
  by (simp_all add: v4l2_palette_init_def)

















lemma c_mod_alt: "c_mod a b = sgn a * (\<bar>a\<bar> mod \<bar>b\<bar>)"
proof -
  have "a = sgn a * \<bar>a\<bar>" by (simp add: mult_sgn_abs)
  moreover have "b = sgn b * \<bar>b\<bar>" by (simp add: mult_sgn_abs)
  moreover have "sgn b * sgn b * \<bar>b\<bar> = \<bar>b\<bar>"
    by (cases "b = 0") (simp_all add: sgn_mult_self_eq)
  ultimately have "c_mod a b = sgn a * (\<bar>a\<bar> - \<bar>b\<bar> * (\<bar>a\<bar> div \<bar>b\<bar>))"
    unfolding c_mod_def c_div_def
    by (metis (no_types, opaque_lifting) mult.assoc mult.commute mult.left_commute right_diff_distrib)
  then show ?thesis by (simp add: minus_mult_div_eq_mod)
qed

lemma c_mod_eq_0_iff: "c_mod a b = 0 \<longleftrightarrow> b dvd a"
proof (cases "a = 0")
  case True
  then show ?thesis by (simp add: c_mod_alt)
next
  case False
  then have "c_mod a b = 0 \<longleftrightarrow> \<bar>a\<bar> mod \<bar>b\<bar> = 0"
    by (simp add: c_mod_alt sgn_eq_0_iff)
  also have "\<dots> \<longleftrightarrow> \<bar>b\<bar> dvd \<bar>a\<bar>" by (simp add: dvd_eq_mod_eq_0)
  also have "\<dots> \<longleftrightarrow> b dvd a" by simp
  finally show ?thesis .
qed

lemma int_of_u32_small: "n < 2 ^ 31 \<Longrightarrow> int_of_u32 n = int n"
  by (simp add: int_of_u32_def)

text \<open>
  C6, as amended. Let the trial succeed and the driver answer with a positive width
  \<open>wd\<close>, a height \<open>ht\<close> and a stride \<open>bpl\<close>, the configured dimensions being
  multiples of 8 (as \<^verbatim>\<open>v4l2_pixfmt_select\<close> leaves them). A stride that is not zero and
  below the width ends \<^verbatim>\<open>v4l2_pixfmt_set\<close> with -1 before any commit. Otherwise the
  width becomes \<open>W\<close>: \<open>wd\<close> itself when the stride is zero or a multiple of
  \<open>wd\<close>, and \<open>wd + (bpl mod wd) div (bpl div wd)\<close> when it is not. If \<open>W\<close> or
  \<open>ht\<close> is not a multiple of 8 the function returns -1 and no \<^verbatim>\<open>VIDIOC_S_FMT\<close> is
  issued; else the format is committed, and \<open>W\<close> and \<open>ht\<close> are the dimensions of the
  device and of the configuration.
\<close>

theorem pixfmt_set_stride_adjustment:
  assumes tr: "hw_try_fmt hw \<lparr> pix_width = u32_of_int (conf_width cnt),
                                pix_height = u32_of_int (conf_height cnt),
                                pix_pixelformat = pixformat, pix_bytesperline = 0 \<rparr> = (r, echo)"
      and ok: "r \<noteq> - 1" "pix_pixelformat echo = pixformat"
      and wd: "wd = int_of_u32 (pix_width echo)" "0 < wd"
      and ht: "ht = int_of_u32 (pix_height echo)"
      and bpl: "bpl = int_of_u32 (pix_bytesperline echo)"
      and conf8: "8 dvd conf_width cnt" "8 dvd conf_height cnt"
  shows "v4l2_pixfmt_set hw cnt curdev vs pixformat =
     (let trial = VIDIOC_TRY_FMT \<lparr> pix_width = u32_of_int (conf_width cnt),
                                pix_height = u32_of_int (conf_height cnt),
                                pix_pixelformat = pixformat, pix_bytesperline = 0 \<rparr>
      in if bpl \<noteq> 0 \<and> bpl < wd
         then Inr (- 1, cnt, curdev \<lparr> dev_width := wd, dev_height := ht \<rparr>,
                   vs \<lparr> dst_fmt := echo \<rparr>, [trial])
         else
           let W = (if bpl = 0 \<or> wd dvd bpl then wd else wd + (bpl mod wd) div (bpl div wd))
           in if \<not> (8 dvd W \<and> 8 dvd ht)
              then Inr (- 1, cnt, curdev \<lparr> dev_width := W, dev_height := ht \<rparr>,
                        vs \<lparr> dst_fmt := echo \<rparr>, [trial])
              else
                (case hw_s_fmt hw echo of
                   (r2, fmt2) \<Rightarrow>
                     if r2 = - 1
                     then Inr (- 1, cnt \<lparr> conf_width := W, conf_height := ht \<rparr>,
                               curdev \<lparr> dev_width := W, dev_height := ht \<rparr>,
                               vs \<lparr> dst_fmt := fmt2 \<rparr>, [trial, VIDIOC_S_FMT echo])
                     else Inr (0, cnt \<lparr> conf_width := W, conf_height := ht \<rparr>,
                               curdev \<lparr> dev_width := W, dev_height := ht,
                                        pixfmt_src := pixformat \<rparr>,
                               vs \<lparr> dst_fmt := fmt2 \<rparr>, [trial, VIDIOC_S_FMT echo])))"
proof -
  let ?req = "\<lparr> pix_width = u32_of_int (conf_width cnt),
                pix_height = u32_of_int (conf_height cnt),
                pix_pixelformat = pixformat, pix_bytesperline = 0 \<rparr>"
  define W where "W = (if bpl = 0 \<or> wd dvd bpl then wd else wd + (bpl mod wd) div (bpl div wd))"
  have t: "v4l2_pixfmt_try hw cnt vs pixformat = (0, vs \<lparr> dst_fmt := echo \<rparr>, [VIDIOC_TRY_FMT ?req])"
    using tr ok by (simp add: v4l2_pixfmt_try_def)
  have st0: "v4l2_pixfmt_stride curdev (vs \<lparr> dst_fmt := echo \<rparr>) =
     (let curdev1 = curdev \<lparr> dev_width := wd, dev_height := ht \<rparr>
      in if bpl = 0 then Inr (0, curdev1)
         else if wd > bpl then Inr (- 1, curdev1)
         else if wd = bpl then Inr (0, curdev1)
         else if c_mod bpl wd = 0 then Inr (0, curdev1)
         else let wps = c_div bpl wd
              in if wps = 0 then Inl Division_by_zero
                 else Inr (0, curdev1 \<lparr> dev_width := wd + c_div (c_mod bpl wd) wps \<rparr>))"
    using wd(2) unfolding v4l2_pixfmt_stride_def wd(1) ht bpl Let_def by simp
  have st: "v4l2_pixfmt_stride curdev (vs \<lparr> dst_fmt := echo \<rparr>) =
      (if bpl \<noteq> 0 \<and> bpl < wd then Inr (- 1, curdev \<lparr> dev_width := wd, dev_height := ht \<rparr>)
       else Inr (0, curdev \<lparr> dev_width := W, dev_height := ht \<rparr>))"
  proof -
    consider (zero) "bpl = 0" | (less) "bpl \<noteq> 0" "bpl < wd" | (eq) "bpl \<noteq> 0" "bpl = wd"
      | (gt) "bpl \<noteq> 0" "wd < bpl" by linarith
    then show ?thesis
    proof cases
      case zero
      then show ?thesis unfolding st0 Let_def W_def by simp
    next
      case less
      then show ?thesis unfolding st0 Let_def W_def by simp
    next
      case eq
      then show ?thesis unfolding st0 Let_def W_def by simp
    next
      case gt
      with wd(2) have q: "c_div bpl wd = bpl div wd" "c_mod bpl wd = bpl mod wd"
        by (simp_all add: c_div_nonneg c_mod_nonneg)
      from gt wd(2) have p0: "0 < bpl div wd"
        by (simp add: pos_imp_zdiv_pos_iff)
      then have p: "bpl div wd \<noteq> 0" by simp
      have r: "c_div (bpl mod wd) (bpl div wd) = (bpl mod wd) div (bpl div wd)"
        using wd(2) p0 by (intro c_div_nonneg) simp_all
      have d: "(bpl mod wd = 0) = (wd dvd bpl)" by (simp add: dvd_eq_mod_eq_0)
      from gt have n: "\<not> bpl < wd" "bpl \<noteq> wd" "\<not> wd > bpl" by simp_all
      show ?thesis unfolding st0 Let_def W_def q r d using gt(1) n p by simp
    qed
  qed
  have adj: "v4l2_pixfmt_adj cnt (curdev \<lparr> dev_width := W, dev_height := ht \<rparr>) =
      (if 8 dvd W \<and> 8 dvd ht then (0, cnt \<lparr> conf_width := W, conf_height := ht \<rparr>)
       else (- 1, cnt))"
  proof (cases "W = conf_width cnt \<and> ht = conf_height cnt")
    case True
    then have "cnt \<lparr> conf_width := W, conf_height := ht \<rparr> = cnt" by simp
    with True conf8 show ?thesis by (simp add: v4l2_pixfmt_adj_def)
  next
    case False
    then show ?thesis by (auto simp: v4l2_pixfmt_adj_def c_mod_eq_0_iff)
  qed
  show ?thesis
    unfolding v4l2_pixfmt_set_def t Let_def W_def[symmetric]
    by (simp add: st adj split: prod.splits)
qed

text \<open>
  The claim as stated fails for a stride below the width: 320 is not zero and not a
  multiple of 640, the claim's width \<open>640 + (320 mod 640) div (320 div 640)\<close> and the
  height 480 are multiples of 8, yet \<^verbatim>\<open>v4l2_pixfmt_set\<close> returns -1 and commits nothing
  (the guard ``Width must be less than stride'' of \<^verbatim>\<open>v4l2_pixfmt_stride\<close>).
\<close>

theorem pixfmt_set_short_stride_aborts:
  "v4l2_pixfmt_set hw_half_stride example_cnt example_dev example_src V4L2_PIX_FMT_YUV420 =
     Inr (- 1, example_cnt, example_dev,
          example_src \<lparr> dst_fmt := \<lparr> pix_width = 640, pix_height = 480,
                     pix_pixelformat = V4L2_PIX_FMT_YUV420, pix_bytesperline = 320 \<rparr> \<rparr>,
          [VIDIOC_TRY_FMT \<lparr> pix_width = 640, pix_height = 480,
                     pix_pixelformat = V4L2_PIX_FMT_YUV420, pix_bytesperline = 0 \<rparr>])
   \<and> (320 :: int) \<noteq> 0 \<and> \<not> (640 :: int) dvd 320
   \<and> 8 dvd (640 :: int) + (320 mod 640) div (320 div 640) \<and> 8 dvd (480 :: int)"
  by (simp add: v4l2_pixfmt_set_def v4l2_pixfmt_try_def v4l2_pixfmt_stride_def
        hw_half_stride_def Let_def example_cnt_def example_dev_def
        example_src_def u32_of_int_def int_of_u32_def)

theorem pixfmt_set_stride_adjustment_witness:
  "hw_try_fmt hw_padded \<lparr> pix_width = u32_of_int (conf_width example_cnt),
                            pix_height = u32_of_int (conf_height example_cnt),
                            pix_pixelformat = V4L2_PIX_FMT_YUYV, pix_bytesperline = 0 \<rparr>
     = (0, \<lparr> pix_width = 640, pix_height = 480, pix_pixelformat = V4L2_PIX_FMT_YUYV,
             pix_bytesperline = 1296 \<rparr>)
   \<and> (0 :: int) < 640 \<and> 8 dvd conf_width example_cnt \<and> 8 dvd conf_height example_cnt
   \<and> v4l2_pixfmt_set hw_padded example_cnt example_dev example_src V4L2_PIX_FMT_YUYV =
       Inr (0, example_cnt \<lparr> conf_width := 648, conf_height := 480 \<rparr>,
            example_dev \<lparr> dev_width := 648, dev_height := 480,
                          pixfmt_src := V4L2_PIX_FMT_YUYV \<rparr>,
            example_src \<lparr> dst_fmt := \<lparr> pix_width = 640, pix_height = 480,
                     pix_pixelformat = V4L2_PIX_FMT_YUYV, pix_bytesperline = 1296 \<rparr> \<rparr>,
            [VIDIOC_TRY_FMT \<lparr> pix_width = 640, pix_height = 480,
                     pix_pixelformat = V4L2_PIX_FMT_YUYV, pix_bytesperline = 0 \<rparr>,
             VIDIOC_S_FMT \<lparr> pix_width = 640, pix_height = 480,
                     pix_pixelformat = V4L2_PIX_FMT_YUYV, pix_bytesperline = 1296 \<rparr>])"
proof -
  let ?echo = "\<lparr> pix_width = 640, pix_height = 480, pix_pixelformat = V4L2_PIX_FMT_YUYV,
             pix_bytesperline = 1296 \<rparr>"
  have t: "hw_try_fmt hw_padded \<lparr> pix_width = u32_of_int (conf_width example_cnt),
                            pix_height = u32_of_int (conf_height example_cnt),
                            pix_pixelformat = V4L2_PIX_FMT_YUYV, pix_bytesperline = 0 \<rparr>
     = (0, ?echo)"
    by (simp add: hw_padded_def example_cnt_def u32_of_int_def)
  have c: "8 dvd conf_width example_cnt" "8 dvd conf_height example_cnt"
    by (simp_all add: example_cnt_def)
  have s: "hw_s_fmt hw_padded ?echo = (0, ?echo)" by (simp add: hw_padded_def)
  have "v4l2_pixfmt_set hw_padded example_cnt example_dev example_src V4L2_PIX_FMT_YUYV =
       Inr (0, example_cnt \<lparr> conf_width := 648, conf_height := 480 \<rparr>,
            example_dev \<lparr> dev_width := 648, dev_height := 480,
                          pixfmt_src := V4L2_PIX_FMT_YUYV \<rparr>,
            example_src \<lparr> dst_fmt := ?echo \<rparr>,
            [VIDIOC_TRY_FMT \<lparr> pix_width = 640, pix_height = 480,
                     pix_pixelformat = V4L2_PIX_FMT_YUYV, pix_bytesperline = 0 \<rparr>,
             VIDIOC_S_FMT ?echo])"
    using pixfmt_set_stride_adjustment[OF t, of 640 480 1296 example_dev example_src] c
    by (simp add: int_of_u32_def s example_cnt_def u32_of_int_def)
  with t c show ?thesis by simp
qed

lemma palette_valid_fold:
  "fold (\<lambda>pixelformat retcd. if x = pixelformat then 1 else retcd) fs (r :: int)
     = (if x \<in> set fs then 1 else r)"
  by (induction fs arbitrary: r) auto

text \<open>
  C10. When \<^verbatim>\<open>open\<close> fails, \<^verbatim>\<open>v4l2_palette_valid\<close> returns 0, whatever the palette;
  and it returns the same 0 for a device that opens and does not advertise the palette
  asked for.
\<close>

theorem palette_valid_open_failure_is_false:
  "(os_open path < 0 \<longrightarrow> v4l2_palette_valid os_open os_enum_fmt path v4l2_palette = Inr 0)
   \<and> (0 \<le> os_open path' \<and> 0 \<le> v4l2_palette \<and> v4l2_palette \<le> V4L2_PALETTE_COUNT_MAX
        \<and> v4l2_palette_init ! nat v4l2_palette \<notin> set (os_enum_fmt (os_open path'))
      \<longrightarrow> v4l2_palette_valid os_open os_enum_fmt path' v4l2_palette = Inr 0)"
  by (simp add: v4l2_palette_valid_def Let_def palette_valid_fold)

theorem palette_valid_open_failure_is_false_witness:
  "example_open ''/dev/video9'' < 0
   \<and> v4l2_palette_valid example_open example_enum_fmt ''/dev/video9'' 17 = Inr 0
   \<and> 0 \<le> example_open ''/dev/video0'' \<and> (0 :: int) \<le> 17 \<and> 17 \<le> V4L2_PALETTE_COUNT_MAX
   \<and> v4l2_palette_init ! nat 17 \<notin> set (example_enum_fmt (example_open ''/dev/video0''))
   \<and> v4l2_palette_valid example_open example_enum_fmt ''/dev/video0'' 17 = Inr 0
   \<and> v4l2_palette_valid example_open example_enum_fmt ''/dev/video0'' 15 = Inr 1"
proof -
  have a: "example_open ''/dev/video9'' < 0" "0 \<le> example_open ''/dev/video0''"
    by (simp_all add: example_open_def)
  have b: "v4l2_palette_init ! nat 17 \<notin> set (example_enum_fmt (example_open ''/dev/video0''))"
    by (simp add: palette_17 example_enum_fmt_def pixfmt_values)
  have c: "(0 :: int) \<le> 17" "17 \<le> V4L2_PALETTE_COUNT_MAX"
    by (simp_all add: V4L2_PALETTE_COUNT_MAX_def)
  have d: "v4l2_palette_valid example_open example_enum_fmt ''/dev/video0'' 15 = Inr 1"
    by (simp add: v4l2_palette_valid_def example_open_def example_enum_fmt_def
        V4L2_PALETTE_COUNT_MAX_def v4l2_palette_init_def)
  from palette_valid_open_failure_is_false[of example_open "''/dev/video9''" example_enum_fmt 17
        "''/dev/video0''"]
  show ?thesis using a b c d by simp
qed

subsection \<open>Registry and ownership\<close>

lemma registry_find_split:
  "\<forall>d \<in> set before. \<not> P d \<Longrightarrow> P dev \<Longrightarrow>
   registry_find P (before @ dev # after) = Some (before, dev, after)"
  by (induction before) auto

lemma registry_find_none:
  "\<forall>d \<in> set devs. \<not> P d \<Longrightarrow> registry_find P devs = None"
  by (induction devs) auto

lemma next_acquire_keep:
  assumes "owner dev \<noteq> threadnr cnt" "mutex dev = None" "1 < conf_roundrobin_frames cnt"
  shows "next_on_device cnt capture pix_change dev =
     Some (if capture = 0 then pix_change else capture,
           dev \<lparr> mutex := Some (threadnr cnt), owner := threadnr cnt,
                  frames := conf_roundrobin_frames cnt - 1 \<rparr>,
           [Acquire (threadnr cnt)])"
  using assms by (simp add: next_on_device_def Let_def)

lemma next_acquire_release:
  assumes "owner dev \<noteq> threadnr cnt" "mutex dev = None" "conf_roundrobin_frames cnt \<le> 1"
  shows "next_on_device cnt capture pix_change dev =
     Some (if capture = 0 then pix_change else capture,
           dev \<lparr> mutex := None, owner := - 1, frames := 0 \<rparr>,
           [Acquire (threadnr cnt), Release (threadnr cnt)])"
  using assms by (simp add: next_on_device_def Let_def)

lemma next_owner_keep:
  assumes "owner dev = threadnr cnt" "1 < frames dev"
  shows "next_on_device cnt capture pix_change dev =
     Some (if capture = 0 then pix_change else capture,
           dev \<lparr> frames := frames dev - 1 \<rparr>, [])"
  using assms by (simp add: next_on_device_def Let_def)

lemma next_owner_release:
  assumes "owner dev = threadnr cnt" "frames dev \<le> 1"
  shows "next_on_device cnt capture pix_change dev =
     Some (if capture = 0 then pix_change else capture,
           dev \<lparr> owner := - 1, frames := 0, mutex := None \<rparr>, [Release (threadnr cnt)])"
  using assms by (simp add: next_on_device_def Let_def)

lemma next_blocked:
  assumes "owner dev \<noteq> threadnr cnt" "mutex dev \<noteq> None"
  shows "next_on_device cnt capture pix_change dev = None"
  using assms by (simp add: next_on_device_def)

lemma v4l2_next_found:
  assumes "\<forall>d \<in> set before. fd_device d \<noteq> cnt_video_dev cnt" "fd_device dev = cnt_video_dev cnt"
  shows "v4l2_next cnt capture pix_change (before @ dev # after) =
     (case next_on_device cnt capture pix_change dev of
        None \<Rightarrow> None
      | Some (retcd, dev', events) \<Rightarrow> Some (retcd, before @ dev' # after, events))"
  using assms by (simp add: v4l2_next_def registry_find_split)

lemma next_calls_alternate:
  assumes "\<forall>d \<in> set before. fd_device d \<noteq> fd"
  shows "cnt_video_dev x = fd \<Longrightarrow> cnt_video_dev y = fd \<Longrightarrow> threadnr x \<noteq> - 1 \<Longrightarrow> threadnr y \<noteq> - 1
    \<Longrightarrow> conf_roundrobin_frames x = 1 \<Longrightarrow> conf_roundrobin_frames y = 1
    \<Longrightarrow> fd_device dev = fd \<Longrightarrow> owner dev = - 1 \<Longrightarrow> mutex dev = None
    \<Longrightarrow> next_calls (zip (alternate (length rs) x y) rs) (before @ dev # after) =
        Some (before @ (if rs = [] then dev else released dev) # after,
              concat (map turn_events (alternate (length rs) x y)))"
proof (induction rs arbitrary: x y dev)
  case Nil
  then show ?case by simp
next
  case (Cons r rs)
  obtain capture pix_change where r: "r = (capture, pix_change)" by (cases r)
  have first: "v4l2_next x capture pix_change (before @ dev # after) =
      Some (frame_retcd capture pix_change, before @ released dev # after, turn_events x)"
    using assms Cons.prems
    by (simp add: v4l2_next_found next_acquire_release released_def frame_retcd_def turn_events_def)
  have rel: "fd_device (released dev) = fd" "owner (released dev) = - 1" "mutex (released dev) = None"
       "released (released dev) = released dev"
    using Cons.prems by (simp_all add: released_def)
  have rest: "next_calls (zip (alternate (length rs) y x) rs) (before @ released dev # after) =
        Some (before @ released dev # after, concat (map turn_events (alternate (length rs) y x)))"
    using Cons.IH[of y x "released dev"] Cons.prems rel by (cases "rs = []") simp_all
  show ?case
    by (simp add: r first rest)
qed

lemma next_calls_owner:
  assumes "\<forall>d \<in> set before. fd_device d \<noteq> fd" "cnt_video_dev c = fd"
  shows "fd_device dev = fd \<Longrightarrow> owner dev = threadnr c \<Longrightarrow> int (length rs) \<le> frames dev \<Longrightarrow> rs \<noteq> []
    \<Longrightarrow> next_calls (map (Pair c) rs) (before @ dev # after) =
        Some (before @ (if int (length rs) = frames dev
                        then dev \<lparr> owner := - 1, frames := 0, mutex := None \<rparr>
                        else dev \<lparr> frames := frames dev - int (length rs) \<rparr>) # after,
              (if int (length rs) = frames dev then [Release (threadnr c)] else []))"
proof (induction rs arbitrary: dev)
  case Nil
  then show ?case by simp
next
  case (Cons r rs)
  obtain capture pix_change where r: "r = (capture, pix_change)" by (cases r)
  show ?case
  proof (cases "rs = []")
    case True
    show ?thesis
    proof (cases "frames dev = 1")
      case one: True
      then show ?thesis using assms Cons.prems True
        by (simp add: r v4l2_next_found next_owner_release)
    next
      case False
      with Cons.prems True have "1 < frames dev" by simp
      then show ?thesis using assms Cons.prems True
        by (simp add: r v4l2_next_found next_owner_keep)
    qed
  next
    case False
    then have len: "1 \<le> int (length rs)" by (cases rs) simp_all
    with Cons.prems have big: "1 < frames dev" by simp
    let ?dev1 = "dev \<lparr> frames := frames dev - 1 \<rparr>"
    have first: "v4l2_next c capture pix_change (before @ dev # after) =
        Some (frame_retcd capture pix_change, before @ ?dev1 # after, [])"
      using assms Cons.prems big
      by (simp add: v4l2_next_found next_owner_keep frame_retcd_def)
    have "next_calls (map (Pair c) rs) (before @ ?dev1 # after) =
        Some (before @ (if int (length rs) = frames ?dev1
                        then ?dev1 \<lparr> owner := - 1, frames := 0, mutex := None \<rparr>
                        else ?dev1 \<lparr> frames := frames ?dev1 - int (length rs) \<rparr>) # after,
              (if int (length rs) = frames ?dev1 then [Release (threadnr c)] else []))"
      using Cons.prems False by (intro Cons.IH) simp_all
    then show ?thesis
      by (simp add: r first)
  qed
qed

lemma next_calls_quota:
  assumes reg: "\<forall>d \<in> set before. fd_device d \<noteq> fd" and c: "cnt_video_dev c = fd"
      and dev: "fd_device dev = fd" "owner dev \<noteq> threadnr c" "mutex dev = None"
      and rs: "rs \<noteq> []" "int (length rs) \<le> conf_roundrobin_frames c"
  shows "next_calls (map (Pair c) rs) (before @ dev # after) =
        Some (before @ (if int (length rs) = conf_roundrobin_frames c then released dev
                        else owned (threadnr c) (conf_roundrobin_frames c - int (length rs)) dev)
                     # after,
              Acquire (threadnr c)
                # (if int (length rs) = conf_roundrobin_frames c then [Release (threadnr c)] else []))"
proof -
  from rs(1) obtain r rest where rr: "rs = r # rest" by (cases rs) auto
  obtain capture pix_change where r: "r = (capture, pix_change)" by (cases r)
  let ?q = "conf_roundrobin_frames c"
  show ?thesis
  proof (cases "?q \<le> 1")
    case True
    with rs rr have e: "rest = []" "?q = 1" by (cases rest; simp)+
    have "v4l2_next c capture pix_change (before @ dev # after) =
        Some (frame_retcd capture pix_change, before @ released dev # after,
              [Acquire (threadnr c), Release (threadnr c)])"
      using reg c dev True
      by (simp add: v4l2_next_found next_acquire_release released_def frame_retcd_def)
    then show ?thesis by (simp add: rr r e)
  next
    case False
    then have q: "1 < ?q" by simp
    let ?dev1 = "owned (threadnr c) (?q - 1) dev"
    have first: "v4l2_next c capture pix_change (before @ dev # after) =
        Some (frame_retcd capture pix_change, before @ ?dev1 # after, [Acquire (threadnr c)])"
      using reg c dev q
      by (simp add: v4l2_next_found next_acquire_keep owned_def frame_retcd_def)
    show ?thesis
    proof (cases "rest = []")
      case True
      with q show ?thesis by (simp add: rr r first)
    next
      case ne: False
      have d1: "fd_device ?dev1 = fd" "owner ?dev1 = threadnr c" "frames ?dev1 = ?q - 1"
        using dev by (simp_all add: owned_def)
      have len: "int (length rest) \<le> frames ?dev1" using rs(2) rr d1 by simp
      have u: "?dev1 \<lparr> owner := - 1, frames := 0, mutex := None \<rparr> = released dev"
              "?dev1 \<lparr> frames := k \<rparr> = owned (threadnr c) k dev" for k
        by (simp_all add: owned_def released_def)
      from next_calls_owner[OF reg c d1(1) d1(2) len ne, of after]
      show ?thesis
        by (simp add: rr r first d1 u) (simp add: algebra_simps)
    qed
  qed
qed

text \<open>
  C2. Two consumers \<open>cntA\<close> and \<open>cntB\<close> hold the descriptor of the same device of the
  registry. A call of \<^verbatim>\<open>v4l2_next\<close> by a consumer that does not own the device, the mutex
  being free, acquires the mutex, makes the consumer the owner and gives it the quota
  \<^verbatim>\<open>roundrobin_frames\<close>; the call decrements the quota whatever the frame's code, and
  the owner is cleared and the mutex released by the call that brings the quota to zero
  (or below, for a configured quota under 1), and by no other. While a consumer owns the
  device, a call of the other one waits. With a quota of 1 for both, calls taken in
  turns each acquire and release: the owners alternate strictly. A consumer with quota
  \<open>q\<close> that calls up to \<open>q\<close> times in a row acquires once and is released by the
  \<open>q\<close>-th call, not before and not later.
\<close>

theorem v4l2_next_round_robin:
  assumes reg: "\<forall>d \<in> set before. fd_device d \<noteq> fd" and dev: "fd_device dev = fd"
      and A: "cnt_video_dev cntA = fd" "threadnr cntA \<noteq> - 1"
      and B: "cnt_video_dev cntB = fd" "threadnr cntB \<noteq> - 1" "threadnr cntB \<noteq> threadnr cntA"
  shows
  "(owner dev \<noteq> threadnr cntA \<and> mutex dev = None \<longrightarrow>
      v4l2_next cntA capture pix_change (before @ dev # after) =
        Some (frame_retcd capture pix_change,
              before @ (if conf_roundrobin_frames cntA \<le> 1 then released dev
                        else owned (threadnr cntA) (conf_roundrobin_frames cntA - 1) dev) # after,
              Acquire (threadnr cntA)
                # (if conf_roundrobin_frames cntA \<le> 1 then [Release (threadnr cntA)] else [])))
   \<and> (owner dev = threadnr cntA \<and> mutex dev = Some (threadnr cntA) \<and> 0 < frames dev \<longrightarrow>
      v4l2_next cntA capture pix_change (before @ dev # after) =
        Some (frame_retcd capture pix_change,
              before @ (if frames dev = 1 then released dev
                        else dev \<lparr> frames := frames dev - 1 \<rparr>) # after,
              if frames dev = 1 then [Release (threadnr cntA)] else [])
      \<and> v4l2_next cntB capture pix_change (before @ dev # after) = None)
   \<and> (owner dev = - 1 \<and> mutex dev = None
        \<and> conf_roundrobin_frames cntA = 1 \<and> conf_roundrobin_frames cntB = 1 \<longrightarrow>
      next_calls (zip (alternate (length rs) cntA cntB) rs) (before @ dev # after) =
        Some (before @ (if rs = [] then dev else released dev) # after,
              concat (map turn_events (alternate (length rs) cntA cntB))))
   \<and> (owner dev = - 1 \<and> mutex dev = None \<and> rs \<noteq> []
        \<and> int (length rs) \<le> conf_roundrobin_frames cntA \<longrightarrow>
      next_calls (map (Pair cntA) rs) (before @ dev # after) =
        Some (before @ (if int (length rs) = conf_roundrobin_frames cntA then released dev
                        else owned (threadnr cntA)
                               (conf_roundrobin_frames cntA - int (length rs)) dev) # after,
              Acquire (threadnr cntA)
                # (if int (length rs) = conf_roundrobin_frames cntA
                   then [Release (threadnr cntA)] else [])))"
proof (intro conjI impI)
  assume "owner dev \<noteq> threadnr cntA \<and> mutex dev = None"
  then show "v4l2_next cntA capture pix_change (before @ dev # after) =
        Some (frame_retcd capture pix_change,
              before @ (if conf_roundrobin_frames cntA \<le> 1 then released dev
                        else owned (threadnr cntA) (conf_roundrobin_frames cntA - 1) dev) # after,
              Acquire (threadnr cntA)
                # (if conf_roundrobin_frames cntA \<le> 1 then [Release (threadnr cntA)] else []))"
    using reg dev A
    by (simp add: v4l2_next_found next_acquire_release next_acquire_keep released_def owned_def
        frame_retcd_def)
next
  assume o: "owner dev = threadnr cntA \<and> mutex dev = Some (threadnr cntA) \<and> 0 < frames dev"
  then show "v4l2_next cntA capture pix_change (before @ dev # after) =
        Some (frame_retcd capture pix_change,
              before @ (if frames dev = 1 then released dev
                        else dev \<lparr> frames := frames dev - 1 \<rparr>) # after,
              if frames dev = 1 then [Release (threadnr cntA)] else [])"
    using reg dev A
    by (cases "frames dev = 1")
       (simp_all add: v4l2_next_found next_owner_release next_owner_keep released_def frame_retcd_def)
  from o show "v4l2_next cntB capture pix_change (before @ dev # after) = None"
    using reg dev B by (simp add: v4l2_next_found next_blocked)
next
  assume "owner dev = - 1 \<and> mutex dev = None
        \<and> conf_roundrobin_frames cntA = 1 \<and> conf_roundrobin_frames cntB = 1"
  then show "next_calls (zip (alternate (length rs) cntA cntB) rs) (before @ dev # after) =
        Some (before @ (if rs = [] then dev else released dev) # after,
              concat (map turn_events (alternate (length rs) cntA cntB)))"
    using next_calls_alternate[OF reg A(1) B(1) A(2) B(2), of dev rs after] dev by simp
next
  assume "owner dev = - 1 \<and> mutex dev = None \<and> rs \<noteq> []
        \<and> int (length rs) \<le> conf_roundrobin_frames cntA"
  then show "next_calls (map (Pair cntA) rs) (before @ dev # after) =
        Some (before @ (if int (length rs) = conf_roundrobin_frames cntA then released dev
                        else owned (threadnr cntA)
                               (conf_roundrobin_frames cntA - int (length rs)) dev) # after,
              Acquire (threadnr cntA)
                # (if int (length rs) = conf_roundrobin_frames cntA
                   then [Release (threadnr cntA)] else []))"
    using next_calls_quota[OF reg A(1) dev, of rs after] A(2) by simp
qed

theorem v4l2_next_round_robin_witness:
  "v4l2_next example_cnt 0 0 [example_dev] =
     Some (0, [released example_dev], [Acquire 1, Release 1])
   \<and> next_calls (zip [example_cnt, example_cnt_other, example_cnt, example_cnt_other]
                     [(0, 0), (0, 0), (- 1, 0), (0, 0)]) [example_dev] =
       Some ([released example_dev],
             [Acquire 1, Release 1, Acquire 2, Release 2,
              Acquire 1, Release 1, Acquire 2, Release 2])
   \<and> v4l2_next example_cnt_quota 0 0 [owned 1 2 example_dev] =
       Some (0, [owned 1 1 example_dev], [])
   \<and> v4l2_next example_cnt_other 0 0 [owned 1 2 example_dev] = None
   \<and> v4l2_next example_cnt_quota 0 0 [owned 1 1 example_dev] =
       Some (0, [released example_dev], [Release 1])
   \<and> next_calls (map (Pair example_cnt_quota) [(0, 0), (0, 0)]) [example_dev] =
       Some ([owned 1 1 example_dev], [Acquire 1])
   \<and> next_calls (map (Pair example_cnt_quota) [(0, 0), (0, 0), (0, 0)]) [example_dev] =
       Some ([released example_dev], [Acquire 1, Release 1])"
proof -
  have reg: "\<forall>d \<in> set []. fd_device d \<noteq> (5 :: int)" by simp
  have c: "cnt_video_dev example_cnt = 5" "threadnr example_cnt = 1"
      "conf_roundrobin_frames example_cnt = 1"
      "cnt_video_dev example_cnt_other = 5" "threadnr example_cnt_other = 2"
      "conf_roundrobin_frames example_cnt_other = 1"
      "cnt_video_dev example_cnt_quota = 5" "threadnr example_cnt_quota = 1"
      "conf_roundrobin_frames example_cnt_quota = 3"
    by (simp_all add: example_cnt_def example_cnt_other_def example_cnt_quota_def)
  have d: "fd_device example_dev = 5" "owner example_dev = - 1" "mutex example_dev = None"
    by (simp_all add: example_dev_def)
  have o: "fd_device (owned t k example_dev) = 5" "owner (owned t k example_dev) = t"
      "mutex (owned t k example_dev) = Some t" "frames (owned t k example_dev) = k"
      "released (owned t k example_dev) = released example_dev"
      "(owned t k example_dev) \<lparr> frames := j \<rparr> = owned t j example_dev" for t k j
    by (simp_all add: owned_def released_def example_dev_def)
  have l: "length [(0 :: int, 0 :: int), (0, 0), (- 1, 0), (0, 0)] = Suc (Suc (Suc (Suc 0)))"
    by simp
  note turn =
    v4l2_next_round_robin[OF reg d(1), of example_cnt example_cnt_other 0 0 "[]"
      "[(0, 0), (0, 0), (- 1, 0), (0, 0)]", unfolded l]
  note own2 =
    v4l2_next_round_robin[OF reg o(1), of example_cnt_quota example_cnt_other 1 2 0 0 "[]" "[]"]
  note own1 =
    v4l2_next_round_robin[OF reg o(1), of example_cnt_quota example_cnt_other 1 1 0 0 "[]" "[]"]
  note two =
    v4l2_next_round_robin[OF reg d(1), of example_cnt_quota example_cnt_other 0 0 "[]"
      "[(0, 0), (0, 0)]"]
  note three =
    v4l2_next_round_robin[OF reg d(1), of example_cnt_quota example_cnt_other 0 0 "[]"
      "[(0, 0), (0, 0), (0, 0)]"]
  show ?thesis
    using turn own2 own1 two three
    by (simp add: c d o frame_retcd_def turn_events_def del: next_calls.simps)
qed

lemma start_chain_all_succeed:
  assumes "0 < sh_open hw (conf_video_device cnt)" "\<forall>step. sh_retcd hw step = 0"
  shows "\<exists>curdev vid_source.
      fold (start_run hw cnt) start_steps (Inr (0, video_dev_alloc \<lparr> starting := True \<rparr>, []))
        = Inr (0, curdev, start_steps)
      \<and> usage_count curdev = 1 \<and> owner curdev = - 1
      \<and> video_device curdev = conf_video_device cnt
      \<and> fd_device curdev = sh_open hw (conf_video_device cnt)
      \<and> v4l2_private curdev = Some vid_source
      \<and> vs_fd_device vid_source = sh_open hw (conf_video_device cnt)"
  using assms
  by (simp add: start_steps_def start_run_def v4l2_device_init_def v4l2_device_open_def
      video_dev_alloc_def Let_def)

text \<open>
  C3. A call of \<^verbatim>\<open>v4l2_start\<close> for a path that a device of the registry has returns
  the descriptor of that device, increments its \<^verbatim>\<open>usage_count\<close> and runs none of the
  steps of a start. A call of \<^verbatim>\<open>v4l2_cleanup\<close> decrements \<^verbatim>\<open>usage_count\<close>; only when
  the count was 1 does it issue the stream-off, close the descriptor, unmap and free the
  buffers, free the control list and drop the device from the registry; otherwise the
  device stays, with the count one lower and nothing done to the hardware. A start for
  a path that is not in the registry, all steps succeeding, inserts a device with
  \<^verbatim>\<open>usage_count\<close> 1.
\<close>

theorem registry_reference_count:
  "((\<forall>d \<in> set before. video_device d \<noteq> conf_video_device cnt)
      \<and> video_device dev = conf_video_device cnt \<longrightarrow>
      v4l2_start hw cnt (before @ dev # after) =
        Inr (fd_device dev, snd (v4l2_imgs_set cnt dev),
             before @ dev \<lparr> usage_count := usage_count dev + 1 \<rparr> # after, []))
   \<and> ((\<forall>d \<in> set before. fd_device d \<noteq> cnt_video_dev cnt)
      \<and> fd_device dev = cnt_video_dev cnt \<longrightarrow>
      v4l2_cleanup cnt (before @ dev # after) =
        (if usage_count dev = 1
         then (case v4l2_private dev of
                 None \<Rightarrow> Inl Null_pointer
               | Some vid_source \<Rightarrow>
                   Inr (cnt \<lparr> cnt_video_dev := - 1 \<rparr>, before @ after,
                        teardown_events dev vid_source))
         else Inr (cnt \<lparr> cnt_video_dev := - 1 \<rparr>,
                   before @ (if owner dev = threadnr cnt
                             then released (dev \<lparr> usage_count := usage_count dev - 1 \<rparr>)
                             else dev \<lparr> usage_count := usage_count dev - 1 \<rparr>) # after,
                   [])))
   \<and> ((\<forall>d \<in> set devices. video_device d \<noteq> conf_video_device cnt)
      \<and> 0 < sh_open hw (conf_video_device cnt) \<and> (\<forall>step. sh_retcd hw step = 0) \<longrightarrow>
      (\<exists>curdev. v4l2_start hw cnt devices =
           Inr (sh_open hw (conf_video_device cnt), snd (v4l2_imgs_set cnt curdev),
                curdev # devices, start_steps)
         \<and> usage_count curdev = 1 \<and> owner curdev = - 1
         \<and> video_device curdev = conf_video_device cnt
         \<and> fd_device curdev = sh_open hw (conf_video_device cnt)
         \<and> v4l2_private curdev \<noteq> None))"
proof (intro conjI impI)
  assume "(\<forall>d \<in> set before. video_device d \<noteq> conf_video_device cnt)
      \<and> video_device dev = conf_video_device cnt"
  then have "registry_find (\<lambda>curdev. mystreq (conf_video_device cnt) (video_device curdev))
      (before @ dev # after) = Some (before, dev, after)"
    by (intro registry_find_split) (auto simp: mystreq_def)
  then show "v4l2_start hw cnt (before @ dev # after) =
        Inr (fd_device dev, snd (v4l2_imgs_set cnt dev),
             before @ dev \<lparr> usage_count := usage_count dev + 1 \<rparr> # after, [])"
    by (simp add: v4l2_start_def v4l2_imgs_set_def)
next
  assume "(\<forall>d \<in> set before. fd_device d \<noteq> cnt_video_dev cnt)
      \<and> fd_device dev = cnt_video_dev cnt"
  then have f: "registry_find (\<lambda>dev. fd_device dev = cnt_video_dev cnt)
      (before @ dev # after) = Some (before, dev, after)"
    by (intro registry_find_split) auto
  show "v4l2_cleanup cnt (before @ dev # after) =
        (if usage_count dev = 1
         then (case v4l2_private dev of
                 None \<Rightarrow> Inl Null_pointer
               | Some vid_source \<Rightarrow>
                   Inr (cnt \<lparr> cnt_video_dev := - 1 \<rparr>, before @ after,
                        teardown_events dev vid_source))
         else Inr (cnt \<lparr> cnt_video_dev := - 1 \<rparr>,
                   before @ (if owner dev = threadnr cnt
                             then released (dev \<lparr> usage_count := usage_count dev - 1 \<rparr>)
                             else dev \<lparr> usage_count := usage_count dev - 1 \<rparr>) # after,
                   []))"
    by (cases "v4l2_private dev")
       (simp_all add: v4l2_cleanup_def f Let_def v4l2_device_close_def v4l2_device_cleanup_def
          teardown_events_def released_def split: option.splits)
next
  assume a: "(\<forall>d \<in> set devices. video_device d \<noteq> conf_video_device cnt)
      \<and> 0 < sh_open hw (conf_video_device cnt) \<and> (\<forall>step. sh_retcd hw step = 0)"
  then have n: "registry_find (\<lambda>curdev. mystreq (conf_video_device cnt) (video_device curdev))
      devices = None"
    by (intro registry_find_none) (auto simp: mystreq_def)
  from a start_chain_all_succeed[of hw cnt] obtain curdev vid_source where
    c: "fold (start_run hw cnt) start_steps (Inr (0, video_dev_alloc \<lparr> starting := True \<rparr>, []))
        = Inr (0, curdev, start_steps)"
      "usage_count curdev = 1" "owner curdev = - 1"
      "video_device curdev = conf_video_device cnt"
      "fd_device curdev = sh_open hw (conf_video_device cnt)"
      "v4l2_private curdev = Some vid_source"
    by blast
  show "\<exists>curdev. v4l2_start hw cnt devices =
           Inr (sh_open hw (conf_video_device cnt), snd (v4l2_imgs_set cnt curdev),
                curdev # devices, start_steps)
         \<and> usage_count curdev = 1 \<and> owner curdev = - 1
         \<and> video_device curdev = conf_video_device cnt
         \<and> fd_device curdev = sh_open hw (conf_video_device cnt)
         \<and> v4l2_private curdev \<noteq> None"
    by (intro exI[of _ "(start_negotiated hw curdev) \<lparr> starting := False \<rparr>"])
       (simp add: v4l2_start_def n c Let_def start_negotiated_def)
qed

lemma start_example_first:
  "v4l2_start example_start_hw example_cnt [] = Inr (5, example_cnt, [example_opened], start_steps)"
  by (simp add: v4l2_start_def start_steps_def start_run_def v4l2_device_init_def
      v4l2_device_open_def video_dev_alloc_def Let_def start_negotiated_def v4l2_imgs_set_def
      example_start_hw_def example_cnt_def example_opened_def)

theorem registry_reference_count_witness:
  "v4l2_start example_start_hw example_cnt [] =
     Inr (5, example_cnt, [example_opened], start_steps)
   \<and> usage_count example_opened = 1
   \<and> v4l2_start example_start_hw example_cnt_other [example_opened] =
       Inr (5, example_cnt_other, [example_opened \<lparr> usage_count := 2 \<rparr>], [])
   \<and> v4l2_cleanup example_cnt [example_opened \<lparr> usage_count := 2 \<rparr>] =
       Inr (example_cnt \<lparr> cnt_video_dev := - 1 \<rparr>, [example_opened], [])
   \<and> v4l2_cleanup example_cnt_other [example_opened] =
       Inr (example_cnt_other \<lparr> cnt_video_dev := - 1 \<rparr>, [],
            [Stream_off 5, Close_descriptor 5, Munmap 0, Munmap 1, Munmap 2, Munmap 3,
             Free_buffers, Free_private, Mutex_destroy, Free_device])"
proof -
  have "v4l2_start example_start_hw example_cnt_other ([] @ example_opened # []) =
        Inr (fd_device example_opened, snd (v4l2_imgs_set example_cnt_other example_opened),
             [] @ example_opened \<lparr> usage_count := usage_count example_opened + 1 \<rparr> # [], [])"
    using registry_reference_count[of "[]" example_cnt_other example_opened example_start_hw "[]" "[]"]
    by (simp add: example_opened_def example_cnt_other_def example_cnt_def)
  then have second: "v4l2_start example_start_hw example_cnt_other [example_opened] =
       Inr (5, example_cnt_other, [example_opened \<lparr> usage_count := 2 \<rparr>], [])"
    by (simp add: v4l2_imgs_set_def example_opened_def example_cnt_other_def example_cnt_def)
  have once: "v4l2_cleanup example_cnt [example_opened \<lparr> usage_count := 2 \<rparr>] =
       Inr (example_cnt \<lparr> cnt_video_dev := - 1 \<rparr>, [example_opened], [])"
    using registry_reference_count[of "[]" example_cnt "example_opened \<lparr> usage_count := 2 \<rparr>"
        example_start_hw "[]" "[]"]
    by (simp add: example_opened_def example_cnt_def)
  have twice: "v4l2_cleanup example_cnt_other [example_opened] =
       Inr (example_cnt_other \<lparr> cnt_video_dev := - 1 \<rparr>, [],
            [Stream_off 5, Close_descriptor 5, Munmap 0, Munmap 1, Munmap 2, Munmap 3,
             Free_buffers, Free_private, Mutex_destroy, Free_device])"
    using registry_reference_count[of "[]" example_cnt_other example_opened example_start_hw "[]" "[]"]
    by (simp add: example_opened_def example_cnt_other_def example_cnt_def teardown_events_def
        upt_rec)
  have fresh: "\<exists>curdev. v4l2_start example_start_hw example_cnt [] =
           Inr (sh_open example_start_hw (conf_video_device example_cnt),
                snd (v4l2_imgs_set example_cnt curdev), curdev # [], start_steps)
         \<and> usage_count curdev = 1 \<and> owner curdev = - 1
         \<and> video_device curdev = conf_video_device example_cnt
         \<and> fd_device curdev = sh_open example_start_hw (conf_video_device example_cnt)
         \<and> v4l2_private curdev \<noteq> None"
    using registry_reference_count[of "[]" example_cnt example_opened example_start_hw "[]" "[]"]
    by (simp add: example_start_hw_def example_cnt_def)
  from fresh second once twice show ?thesis
    by (simp add: start_example_first example_opened_def)
qed

subsection \<open>Autobrightness\<close>

lemma c_int_id: "INT_MIN \<le> i \<Longrightarrow> i \<le> INT_MAX \<Longrightarrow> c_int i = i"
  by (simp add: c_int_def INT_MIN_def INT_MAX_def)

lemma c_int_range: "INT_MIN \<le> c_int i" "c_int i \<le> INT_MAX"
proof -
  have "0 \<le> (i + 2147483648) mod 4294967296" "(i + 2147483648) mod 4294967296 < 4294967296"
    by simp_all
  then show "INT_MIN \<le> c_int i" "c_int i \<le> INT_MAX"
    by (simp_all add: c_int_def INT_MIN_def INT_MAX_def)
qed

lemma c_div_20_abs_le: "\<bar>c_div a 20\<bar> \<le> \<bar>a\<bar>"
proof -
  have "\<bar>a\<bar> div 20 \<le> \<bar>a\<bar> div 1"
    by (intro zdiv_mono2) simp_all
  then have "\<bar>a\<bar> div 20 \<le> \<bar>a\<bar>"
    by simp
  moreover have "0 \<le> \<bar>a\<bar> div 20"
    by (simp add: pos_imp_zdiv_nonneg_iff)
  ultimately have "\<bar>a\<bar> div 20 \<le> \<bar>a\<bar>" "0 \<le> \<bar>a\<bar> div 20"
    by simp_all
  then show ?thesis
    by (cases "a < 0"; cases "a = 0") (simp_all add: c_div_def)
qed

lemma c_div_small_neg: "- 20 < a \<Longrightarrow> a < 0 \<Longrightarrow> c_div a 20 = 0"
  by (simp add: c_div_def)

lemma autobright_step_pos: "- 20 < a \<Longrightarrow> 1 \<le> c_div a 20 + 1"
  by (cases "0 \<le> a") (simp_all add: c_div_nonneg c_div_small_neg)

lemma c_div_255_range:
  assumes "INT_MIN \<le> a" "a \<le> INT_MAX"
  shows "- 8421505 \<le> c_div a 255" "c_div a 255 \<le> 8421504"
proof -
  have "\<bar>a\<bar> \<le> 2147483648"
    using assms by (simp add: INT_MIN_def INT_MAX_def)
  then have "\<bar>a\<bar> div 255 \<le> 2147483648 div 255"
    by (intro zdiv_mono1) simp_all
  then have "\<bar>a\<bar> div 255 \<le> 8421504"
    by simp
  moreover have "0 \<le> \<bar>a\<bar> div 255"
    by (simp add: pos_imp_zdiv_nonneg_iff)
  ultimately show "- 8421505 \<le> c_div a 255" "c_div a 255 \<le> 8421504"
    by (cases "a < 0"; cases "a = 0"; simp add: c_div_def)+
qed

lemma autobright_sample_range:
  assumes "autobright_sample cnt parm_max parm_min = Inr avg"
  shows "- 8421505 \<le> avg" "avg \<le> 8421504"
  using assms c_div_255_range[OF c_int_range]
  by (auto simp: autobright_sample_def Let_def split: if_splits)

lemma adjust_down:
  assumes high: "avg > MIN2 (target + 20) parm_max"
    and target: "parm_min \<le> target" "target \<le> parm_max"
    and device: "parm_min \<le> device_value" "device_value \<le> parm_max"
    and bounds: "INT_MIN div 4 \<le> parm_min" "parm_max \<le> INT_MAX div 4"
    and avg: "- 8421505 \<le> avg" "avg \<le> 8421504"
  shows "\<exists>v. autobright_adjust avg target device_value parm_max parm_min = (v, True)
      \<and> parm_min \<le> v \<and> v \<le> device_value \<and> (parm_min < device_value \<longrightarrow> v < device_value)"
proof -
  define k where "k = c_div (avg - target) 20 + 1"
  define step where "step = MIN2 k (device_value - parm_min)"
  have lo: "- 536870912 \<le> parm_min" and hi: "parm_max \<le> 536870911"
    using bounds by (simp_all add: INT_MIN_def INT_MAX_def)
  from high target(2) have "- 20 < avg - target"
    by (simp add: MIN2_def split: if_splits)
  then have k1: "1 \<le> k"
    unfolding k_def by (rule autobright_step_pos)
  have k2: "k \<le> 545292418"
    using c_div_20_abs_le[of "avg - target"] lo hi target avg unfolding k_def by simp
  have step: "0 \<le> step" "step \<le> device_value - parm_min" "step \<le> k"
    "parm_min < device_value \<longrightarrow> 1 \<le> step"
    using k1 device by (simp_all add: step_def MIN2_def)
  have wrap: "c_int (target + 20) = target + 20"
    "c_int (avg - target) = avg - target"
    "c_int (c_div (avg - target) 20 + 1) = k"
    "c_int (device_value - parm_min) = device_value - parm_min"
    using lo hi target device avg k1 k2
    by (simp_all add: c_int_id INT_MIN_def INT_MAX_def k_def[symmetric])
  have wrap2: "c_int (step + 1) = step + 1"
    "c_int (step + 1 - parm_min) = step + 1 - parm_min"
    "c_int (device_value - step) = device_value - step"
    using lo hi target device step k2
    by (simp_all add: c_int_id INT_MIN_def INT_MAX_def)
  have "autobright_adjust avg target device_value parm_max parm_min =
          (if device_value > step + 1 - parm_min then (device_value - step, True)
           else (parm_min, True))"
    using high
    by (simp add: autobright_adjust_def Let_def wrap step_def[symmetric] wrap2)
  then show ?thesis
    using step device by auto
qed

lemma adjust_up:
  assumes high: "\<not> avg > MIN2 (target + 20) parm_max"
    and low: "avg < MAX2 (target - 20) parm_min"
    and target: "parm_min \<le> target" "target \<le> parm_max"
    and device: "parm_min \<le> device_value" "device_value \<le> parm_max"
    and bounds: "INT_MIN div 4 \<le> parm_min" "parm_max \<le> INT_MAX div 4"
    and avg: "- 8421505 \<le> avg" "avg \<le> 8421504"
  shows "\<exists>v. autobright_adjust avg target device_value parm_max parm_min = (v, True)
      \<and> device_value \<le> v \<and> v \<le> parm_max \<and> (device_value < parm_max \<longrightarrow> device_value < v)"
proof -
  define k where "k = c_div (target - avg) 20 + 1"
  define step where "step = MIN2 k (parm_max - device_value)"
  have lo: "- 536870912 \<le> parm_min" and hi: "parm_max \<le> 536870911"
    using bounds by (simp_all add: INT_MIN_def INT_MAX_def)
  from low target(1) have "- 20 < target - avg"
    by (simp add: MAX2_def split: if_splits)
  then have k1: "1 \<le> k"
    unfolding k_def by (rule autobright_step_pos)
  have k2: "k \<le> 545292418"
    using c_div_20_abs_le[of "target - avg"] lo hi target avg unfolding k_def by simp
  have step: "0 \<le> step" "step \<le> parm_max - device_value" "step \<le> k"
    "device_value < parm_max \<longrightarrow> 1 \<le> step"
    using k1 device by (simp_all add: step_def MIN2_def)
  have wrap: "c_int (target + 20) = target + 20" "c_int (target - 20) = target - 20"
    "c_int (target - avg) = target - avg"
    "c_int (c_div (target - avg) 20 + 1) = k"
    "c_int (parm_max - device_value) = parm_max - device_value"
    using lo hi target device avg k1 k2
    by (simp_all add: c_int_id INT_MIN_def INT_MAX_def k_def[symmetric])
  have wrap2: "c_int (parm_max - step) = parm_max - step"
    "c_int (device_value + step) = device_value + step"
    using lo hi target device step k2
    by (simp_all add: c_int_id INT_MIN_def INT_MAX_def)
  have "autobright_adjust avg target device_value parm_max parm_min =
          (if device_value < parm_max - step then (device_value + step, True)
           else (parm_max, True))"
    using high low
    by (simp add: autobright_adjust_def Let_def wrap step_def[symmetric] wrap2)
  then show ?thesis
    using step device by auto
qed

lemma adjust_inside:
  assumes "\<not> avg > MIN2 (target + 20) parm_max" "\<not> avg < MAX2 (target - 20) parm_min"
    and target: "parm_min \<le> target" "target \<le> parm_max"
    and bounds: "INT_MIN div 4 \<le> parm_min" "parm_max \<le> INT_MAX div 4"
  shows "autobright_adjust avg target device_value parm_max parm_min = (device_value, False)"
proof -
  have "c_int (target + 20) = target + 20" "c_int (target - 20) = target - 20"
    using target bounds by (simp_all add: c_int_id INT_MIN_def INT_MAX_def)
  then show ?thesis
    using assms(1,2) by (simp add: autobright_adjust_def Let_def)
qed

lemma autobright_device_skip:
  "\<forall>d \<in> set array. \<not> autobright_control method d \<Longrightarrow>
   fold (\<lambda>devitem (device_value, parm_max, parm_min, target).
             if autobright_control method devitem
             then (ctrl_currval devitem, ctrl_maximum devitem, ctrl_minimum devitem,
                   if target = - 1
                   then c_div (c_int (ctrl_maximum devitem - ctrl_minimum devitem)) 2
                   else target)
             else (device_value, parm_max, parm_min, target))
        array s = s"
  by (induction array) (auto split: prod.splits)

lemma autobright_device_single:
  assumes "filter (autobright_control method) array = [devitem]"
  shows "autobright_device method array target0 =
     (ctrl_currval devitem, ctrl_maximum devitem, ctrl_minimum devitem,
      if target0 = - 1 then c_div (c_int (ctrl_maximum devitem - ctrl_minimum devitem)) 2
      else target0)"
proof -
  from assms obtain before after where
    sp: "array = before @ devitem # after"
    and b: "\<forall>d \<in> set before. \<not> autobright_control method d"
    and a: "\<forall>d \<in> set after. \<not> autobright_control method d"
    and m: "autobright_control method devitem"
  proof -
    from assms obtain us vs where
      "array = us @ devitem # vs" "\<forall>u \<in> set us. \<not> autobright_control method u"
      "autobright_control method devitem" "[] = filter (autobright_control method) vs"
      by (auto simp: filter_eq_Cons_iff)
    moreover from this(4) have "\<forall>d \<in> set vs. \<not> autobright_control method d"
      by (metis filter_empty_conv)
    ultimately show ?thesis using that by blast
  qed
  show ?thesis
    unfolding autobright_device_def sp
    by (simp add: autobright_device_skip[OF b] autobright_device_skip[OF a] m)
qed

lemma autobright_read_length:
  "length (filter (\<lambda>indx. indx mod 10 = 0) [0 ..< n]) = (n + 9) div 10"
proof (induction n)
  case 0
  show ?case by simp
next
  case (Suc n)
  have "(Suc n + 9) div 10 = (n + 9) div 10 + (if n mod 10 = 0 then 1 else 0)"
    by presburger
  with Suc show ?case by simp
qed

lemma sum_wrap:
  assumes "\<forall>x\<in>set xs. 0 \<le> b x \<and> b x \<le> 255" "0 \<le> a" "a + 255 * int (length xs) \<le> INT_MAX"
  shows "fold (\<lambda>x acc. c_int (acc + b x)) xs a = a + sum_list (map b xs)"
  using assms
proof (induction xs arbitrary: a)
  case Nil
  show ?case by simp
next
  case (Cons x xs)
  have x: "0 \<le> b x" "b x \<le> 255"
    using Cons.prems(1) by simp_all
  have "c_int (a + b x) = a + b x"
    using x Cons.prems(2,3) by (intro c_int_id) (simp_all add: INT_MIN_def INT_MAX_def)
  moreover have "fold (\<lambda>x acc. c_int (acc + b x)) xs (a + b x) = a + b x + sum_list (map b xs)"
    using x Cons.prems by (intro Cons.IH) simp_all
  ultimately show ?case by simp
qed

lemma sum_bytes_bound:
  "\<forall>x\<in>set xs. 0 \<le> b x \<and> b x \<le> (255::int) \<Longrightarrow>
     0 \<le> sum_list (map b xs) \<and> sum_list (map b xs) \<le> 255 * int (length xs)"
  by (induction xs) auto

lemma autobright_sample_exact:
  assumes size: "imgs_motionsize cnt \<le> 84215040"
    and range: "0 \<le> parm_max - parm_min" "parm_max - parm_min \<le> 8421504"
    and sample: "autobright_sample cnt parm_max parm_min = Inr avg"
  shows "avg = c_div (c_div (sum_list (map (\<lambda>indx. int (image_norm cnt ! indx mod 256))
                                         (autobright_read cnt)))
                            (int (length (autobright_read cnt)))
                      * (parm_max - parm_min)) 255"
proof -
  let ?read = "autobright_read cnt"
  let ?byte = "\<lambda>indx. int (image_norm cnt ! indx mod 256)"
  let ?sum = "sum_list (map ?byte ?read)"
  have bytes: "\<forall>x\<in>set ?read. 0 \<le> ?byte x \<and> ?byte x \<le> 255"
    by auto
  have len: "int (length ?read) \<le> 8421504"
    using size by (simp add: autobright_read_def autobright_read_length)
  have ne: "?read \<noteq> []"
    using sample by (auto simp: autobright_sample_def Let_def split: if_splits)
  then have pos: "0 < int (length ?read)"
    by simp
  have total: "fold (\<lambda>indx avg. c_int (avg + ?byte indx)) ?read 0 = ?sum"
    using sum_wrap[OF bytes, of 0] len by (simp add: INT_MAX_def)
  have sum: "0 \<le> ?sum" "?sum \<le> 255 * int (length ?read)"
    using sum_bytes_bound[OF bytes] by simp_all
  have mean: "0 \<le> c_div ?sum (int (length ?read))" "c_div ?sum (int (length ?read)) \<le> 255"
  proof -
    have eq: "c_div ?sum (int (length ?read)) = ?sum div int (length ?read)"
      using sum(1) pos by (rule c_div_nonneg)
    show "0 \<le> c_div ?sum (int (length ?read))"
      unfolding eq using sum(1) pos by (simp add: pos_imp_zdiv_nonneg_iff)
    have "?sum div int (length ?read) \<le> (255 * int (length ?read)) div int (length ?read)"
      using sum(2) pos by (intro zdiv_mono1) simp_all
    then show "c_div ?sum (int (length ?read)) \<le> 255"
      unfolding eq using pos by simp
  qed
  have r: "c_int (parm_max - parm_min) = parm_max - parm_min"
    using range by (intro c_int_id) (simp_all add: INT_MIN_def INT_MAX_def)
  have "c_div ?sum (int (length ?read)) * (parm_max - parm_min) \<le> 255 * 8421504"
    using mean range by (intro mult_mono) simp_all
  moreover have "0 \<le> c_div ?sum (int (length ?read)) * (parm_max - parm_min)"
    using mean(1) range(1) by simp
  ultimately have p: "c_int (c_div ?sum (int (length ?read)) * (parm_max - parm_min))
             = c_div ?sum (int (length ?read)) * (parm_max - parm_min)"
    by (intro c_int_id) (simp_all add: INT_MIN_def INT_MAX_def)
  show ?thesis
    using sample ne
    by (simp add: autobright_sample_def Let_def total r p split: if_splits)
qed

text \<open>
  C5, as amended. The method is 1, 2 or 3, the device has one control of the method, its
  current value is not -1 and lies between its minimum and its maximum, which lie between
  \<^verbatim>\<open>INT_MIN / 4\<close> and \<^verbatim>\<open>INT_MAX / 4\<close> (no sum or difference of the adjustment leaves the
  range of \<^verbatim>\<open>int\<close> then), the target (the one of the user, or half the range when there
  is none) lies between minimum and maximum too, and the sample could be taken and is
  \<open>avg\<close>. When \<open>avg\<close> exceeds \<open>MIN2 (target + 20) maximum\<close>, a value is staged that lies
  between the minimum and the current value, and strictly below the current value when
  the current value is above the minimum. When \<open>avg\<close> is below
  \<open>MAX2 (target - 20) minimum\<close>, a value is staged that lies between the current value and
  the maximum, and strictly above the current value when the current value is below the
  maximum. When \<open>avg\<close> is inside the window, the device is left as it is. And \<open>avg\<close> is
  the mean of the bytes read, multiplied by the range of the control and divided by 255,
  when the image has at most 84215040 bytes and the range is at most 8421504 (the sum of
  the bytes and the product fit an \<^verbatim>\<open>int\<close> then; beyond, \<open>avg\<close> is what 32 bits keep of
  them).
\<close>

theorem autobright_staged_value:
  assumes meth: "method = 1 \<or> method = 2 \<or> method = 3"
      and ctl: "filter (autobright_control method) (devctrl_array curdev) = [devitem]"
      and found: "ctrl_currval devitem \<noteq> - 1"
      and range: "ctrl_minimum devitem \<le> ctrl_currval devitem"
                 "ctrl_currval devitem \<le> ctrl_maximum devitem"
      and bounds: "INT_MIN div 4 \<le> ctrl_minimum devitem"
                  "ctrl_maximum devitem \<le> INT_MAX div 4"
      and target: "target = (if autobright_target method (params_array cnt) = - 1
                             then c_div (ctrl_maximum devitem - ctrl_minimum devitem) 2
                             else autobright_target method (params_array cnt))"
                  "ctrl_minimum devitem \<le> target" "target \<le> ctrl_maximum devitem"
      and sample: "autobright_sample cnt (ctrl_maximum devitem) (ctrl_minimum devitem) = Inr avg"
  shows "(avg > MIN2 (target + 20) (ctrl_maximum devitem) \<longrightarrow>
           (\<exists>staged. v4l2_autobright cnt curdev method
                        = Inr (0, autobright_staged method staged curdev)
              \<and> ctrl_minimum devitem \<le> staged \<and> staged \<le> ctrl_currval devitem
              \<and> (ctrl_minimum devitem < ctrl_currval devitem \<longrightarrow> staged < ctrl_currval devitem)))
       \<and> (avg < MAX2 (target - 20) (ctrl_minimum devitem) \<longrightarrow>
           (\<exists>staged. v4l2_autobright cnt curdev method
                        = Inr (0, autobright_staged method staged curdev)
              \<and> ctrl_currval devitem \<le> staged \<and> staged \<le> ctrl_maximum devitem
              \<and> (ctrl_currval devitem < ctrl_maximum devitem \<longrightarrow> ctrl_currval devitem < staged)))
       \<and> (MAX2 (target - 20) (ctrl_minimum devitem) \<le> avg
            \<and> avg \<le> MIN2 (target + 20) (ctrl_maximum devitem) \<longrightarrow>
           v4l2_autobright cnt curdev method = Inr (0, curdev))
       \<and> (imgs_motionsize cnt \<le> 84215040
            \<and> ctrl_maximum devitem - ctrl_minimum devitem \<le> 8421504 \<longrightarrow>
           avg = c_div (c_div (sum_list (map (\<lambda>indx. int (image_norm cnt ! indx mod 256))
                                             (autobright_read cnt)))
                              (int (length (autobright_read cnt)))
                        * (ctrl_maximum devitem - ctrl_minimum devitem)) 255)"
proof -
  let ?dv = "ctrl_currval devitem" and ?max = "ctrl_maximum devitem" and ?min = "ctrl_minimum devitem"
  have lo: "- 536870912 \<le> ?min" and hi: "?max \<le> 536870911"
    using bounds by (simp_all add: INT_MIN_def INT_MAX_def)
  have width: "c_int (?max - ?min) = ?max - ?min"
    using lo hi range by (intro c_int_id) (simp_all add: INT_MIN_def INT_MAX_def)
  have dev: "autobright_device method (devctrl_array curdev)
               (autobright_target method (params_array cnt)) = (?dv, ?max, ?min, target)"
    using autobright_device_single[OF ctl] target(1) by (simp add: width)
  have run: "v4l2_autobright cnt curdev method =
     (case autobright_adjust avg target ?dv ?max ?min of
        (v, make_change) \<Rightarrow>
          if make_change then Inr (0, autobright_staged method v curdev) else Inr (0, curdev))"
  proof -
    have on: "\<not> (method = 0 \<or> method > 3)"
      using meth by auto
    show ?thesis
      by (cases "autobright_adjust avg target ?dv ?max ?min")
         (simp add: v4l2_autobright_def on dev sample found autobright_staged_def)
  qed
  have window: "MAX2 (target - 20) ?min \<le> MIN2 (target + 20) ?max"
    using target(2,3) by (simp add: MAX2_def MIN2_def)
  note avg = autobright_sample_range[OF sample]
  show ?thesis
  proof (intro conjI impI)
    assume "avg > MIN2 (target + 20) ?max"
    from adjust_down[OF this target(2,3) range bounds avg] obtain v where
      "autobright_adjust avg target ?dv ?max ?min = (v, True)"
      "?min \<le> v" "v \<le> ?dv" "?min < ?dv \<longrightarrow> v < ?dv"
      by blast
    then show "\<exists>staged. v4l2_autobright cnt curdev method
                        = Inr (0, autobright_staged method staged curdev)
              \<and> ?min \<le> staged \<and> staged \<le> ?dv \<and> (?min < ?dv \<longrightarrow> staged < ?dv)"
      by (intro exI[of _ v]) (simp add: run)
  next
    assume low: "avg < MAX2 (target - 20) ?min"
    with window have "\<not> avg > MIN2 (target + 20) ?max" by simp
    from adjust_up[OF this low target(2,3) range bounds avg] obtain v where
      "autobright_adjust avg target ?dv ?max ?min = (v, True)"
      "?dv \<le> v" "v \<le> ?max" "?dv < ?max \<longrightarrow> ?dv < v"
      by blast
    then show "\<exists>staged. v4l2_autobright cnt curdev method
                        = Inr (0, autobright_staged method staged curdev)
              \<and> ?dv \<le> staged \<and> staged \<le> ?max \<and> (?dv < ?max \<longrightarrow> ?dv < staged)"
      by (intro exI[of _ v]) (simp add: run)
  next
    assume "MAX2 (target - 20) ?min \<le> avg \<and> avg \<le> MIN2 (target + 20) ?max"
    then have "autobright_adjust avg target ?dv ?max ?min = (?dv, False)"
      using target(2,3) bounds by (intro adjust_inside) simp_all
    then show "v4l2_autobright cnt curdev method = Inr (0, curdev)"
      by (simp add: run)
  next
    assume "imgs_motionsize cnt \<le> 84215040 \<and> ?max - ?min \<le> 8421504"
    then show "avg = c_div (c_div (sum_list (map (\<lambda>indx. int (image_norm cnt ! indx mod 256))
                                             (autobright_read cnt)))
                              (int (length (autobright_read cnt)))
                        * (?max - ?min)) 255"
      using range sample by (intro autobright_sample_exact) simp_all
  qed
qed

lemma example_read: "autobright_read (example_cnt_image l) = [0, 10]"
  by (simp add: autobright_read_def example_cnt_image_def upt_rec)

lemma sample_values:
  "autobright_sample (example_cnt_image 255) 255 0 = Inr 255"
  "autobright_sample (example_cnt_image 0) 255 0 = Inr 0"
  "autobright_sample (example_cnt_image 128) 255 0 = Inr 128"
  "autobright_sample (example_cnt_image 255) 100000000 0 = Inr (- 1058054)"
proof -
  have image: "imgs_motionsize (example_cnt_image l) = 20"
    "image_norm (example_cnt_image l) = replicate 30 l" for l
    by (simp_all add: example_cnt_image_def)
  show "autobright_sample (example_cnt_image 255) 255 0 = Inr 255"
    "autobright_sample (example_cnt_image 0) 255 0 = Inr 0"
    "autobright_sample (example_cnt_image 128) 255 0 = Inr 128"
    "autobright_sample (example_cnt_image 255) 100000000 0 = Inr (- 1058054)"
    by (simp_all add: autobright_sample_def example_read image Let_def c_int_def c_div_def)
qed

lemma example_dev_brightness_array:
  "devctrl_array (example_dev_brightness current)
     = [example_brightness \<lparr> ctrl_currval := current, ctrl_newval := current \<rparr>]"
  by (simp add: example_dev_brightness_def)

lemma example_brightness_control:
  "autobright_control 1 (example_brightness \<lparr> ctrl_currval := current, ctrl_newval := staged \<rparr>)"
  by (simp add: autobright_control_def example_brightness_def)

lemma example_brightness_fields:
  "ctrl_maximum (example_brightness \<lparr> ctrl_currval := current, ctrl_newval := staged \<rparr>) = 255"
  "ctrl_minimum (example_brightness \<lparr> ctrl_currval := current, ctrl_newval := staged \<rparr>) = 0"
  "ctrl_currval (example_brightness \<lparr> ctrl_currval := current, ctrl_newval := staged \<rparr>) = current"
  by (simp_all add: example_brightness_def)

lemma example_image_target:
  "autobright_target 1 (params_array (example_cnt_image l)) = - 1"
  by (simp add: autobright_target_def example_cnt_image_def example_cnt_def)

lemma example_brightness_device:
  "autobright_device 1 (devctrl_array (example_dev_brightness current)) (- 1)
     = (current, 255, 0, 127)"
  by (simp add: autobright_device_def example_dev_brightness_array example_brightness_control
      example_brightness_fields c_div_def c_int_def)

lemma example_staged:
  "autobright_staged 1 staged (example_dev_brightness current)
     = example_dev_brightness current
         \<lparr> devctrl_array := [example_brightness \<lparr> ctrl_currval := current,
                                                   ctrl_newval := staged \<rparr>] \<rparr>"
  by (simp add: autobright_staged_def example_dev_brightness_array example_brightness_control)

text \<open>
  The claim as stated fails for a control at its minimum: a brightness control at 0, its
  staged value 0 too, and an image of luminance 255 everywhere: the sample is 255, above
  the upper bound \<open>MIN2 (127 + 20) 255\<close> of the window, and the staged value after the call
  is the 0 it was before: it has not decreased.
\<close>

theorem autobright_at_minimum_does_not_decrease:
  "autobright_sample (example_cnt_image 255) 255 0 = Inr 255
   \<and> autobright_target 1 (params_array (example_cnt_image 255)) = - 1
   \<and> c_div (255 - 0) 2 = 127 \<and> MIN2 (127 + 20) 255 < 255
   \<and> devctrl_array (example_dev_brightness 0)
       = [example_brightness \<lparr> ctrl_currval := 0, ctrl_newval := 0 \<rparr>]
   \<and> v4l2_autobright (example_cnt_image 255) (example_dev_brightness 0) 1
       = Inr (0, example_dev_brightness 0)"
proof -
  have adj: "autobright_adjust 255 127 0 255 0 = (0, True)"
    by (simp add: autobright_adjust_def MIN2_def MAX2_def c_div_def c_int_def)
  have same: "example_dev_brightness 0
                \<lparr> devctrl_array := [example_brightness \<lparr> ctrl_currval := 0, ctrl_newval := 0 \<rparr>] \<rparr>
              = example_dev_brightness 0"
    by (simp add: example_dev_brightness_def)
  have run: "v4l2_autobright (example_cnt_image 255) (example_dev_brightness 0) 1
               = Inr (0, example_dev_brightness 0)"
    using example_staged[of 0 0]
    by (simp add: v4l2_autobright_def example_image_target example_brightness_device
        sample_values adj same autobright_staged_def)
  show ?thesis
    by (simp add: sample_values example_image_target example_dev_brightness_array run
        c_div_def MIN2_def)
qed

lemma example_wide_run:
  "v4l2_autobright (example_cnt_image 255) example_dev_wide 1
     = Inr (0, autobright_staged 1 52552903 example_dev_wide)"
proof -
  have device: "autobright_device 1 (devctrl_array example_dev_wide) (- 1)
                  = (50000000, 100000000, 0, 50000000)"
    by (simp add: autobright_device_def example_dev_wide_def autobright_control_def
        example_brightness_def c_div_def c_int_def)
  have adj: "autobright_adjust (- 1058054) 50000000 50000000 100000000 0 = (52552903, True)"
    by (simp add: autobright_adjust_def MIN2_def MAX2_def c_div_def c_int_def)
  show ?thesis
    by (simp add: v4l2_autobright_def example_image_target device sample_values adj
        autobright_staged_def)
qed

text \<open>
  The control at 100: an image of luminance 255 stages a value below 100, an image of
  luminance 0 a value above 100, an image of luminance 128 leaves the device as it is.
  The control of the range 0 to 100000000 at 50000000 and the image of luminance 255: the
  product 255 * 100000000 wraps around, the sample is -1058054, below the window, and
  the value staged is 52552903.
\<close>

theorem autobright_staged_value_witness:
  "(\<exists>staged. v4l2_autobright (example_cnt_image 255) (example_dev_brightness 100) 1
                = Inr (0, autobright_staged 1 staged (example_dev_brightness 100))
            \<and> 0 \<le> staged \<and> staged < 100)
   \<and> (\<exists>staged. v4l2_autobright (example_cnt_image 0) (example_dev_brightness 100) 1
                = Inr (0, autobright_staged 1 staged (example_dev_brightness 100))
            \<and> 100 < staged \<and> staged \<le> 255)
   \<and> v4l2_autobright (example_cnt_image 128) (example_dev_brightness 100) 1
       = Inr (0, example_dev_brightness 100)
   \<and> autobright_sample (example_cnt_image 255) 255 0 = Inr 255
   \<and> autobright_sample (example_cnt_image 255) 100000000 0 = Inr (- 1058054)
   \<and> v4l2_autobright (example_cnt_image 255) example_dev_wide 1
       = Inr (0, autobright_staged 1 52552903 example_dev_wide)"
proof -
  let ?item = "example_brightness \<lparr> ctrl_currval := 100, ctrl_newval := 100 \<rparr>"
  let ?wide = "example_brightness \<lparr> ctrl_maximum := 100000000, ctrl_currval := 50000000,
                                    ctrl_newval := 50000000 \<rparr>"
  have ctl: "filter (autobright_control 1) (devctrl_array (example_dev_brightness 100)) = [?item]"
    by (simp add: example_dev_brightness_array example_brightness_control)
  have tgt: "(127::int) = (if autobright_target 1 (params_array (example_cnt_image l)) = - 1
                    then c_div (ctrl_maximum ?item - ctrl_minimum ?item) 2
                    else autobright_target 1 (params_array (example_cnt_image l)))" for l
    by (simp add: example_image_target example_brightness_fields c_div_def)
  have a: "autobright_sample (example_cnt_image l) (ctrl_maximum ?item) (ctrl_minimum ?item)
             = autobright_sample (example_cnt_image l) 255 0" for l
    by (simp add: example_brightness_fields)
  have wide: "filter (autobright_control 1) (devctrl_array example_dev_wide) = [?wide]"
    "ctrl_maximum ?wide = 100000000" "ctrl_minimum ?wide = 0" "ctrl_currval ?wide = 50000000"
    by (simp_all add: example_dev_wide_def autobright_control_def example_brightness_def)
  have wide_target: "(50000000::int)
        = (if autobright_target 1 (params_array (example_cnt_image 255)) = - 1
           then c_div (ctrl_maximum ?wide - ctrl_minimum ?wide) 2
           else autobright_target 1 (params_array (example_cnt_image 255)))"
    by (simp add: example_image_target wide c_div_def)
  note inst = autobright_staged_value[of 1 "example_dev_brightness 100" ?item 127,
      OF _ ctl _ _ _ _ _ tgt]
  note inst_wide = autobright_staged_value[of 1 example_dev_wide ?wide 50000000
      "example_cnt_image 255" "- 1058054", OF _ wide(1) _ _ _ _ _ wide_target]
  show ?thesis
    using inst[of 255 255] inst[of 0 0] inst[of 128 128] inst_wide
    by (simp add: a sample_values example_brightness_fields wide MIN2_def MAX2_def
          INT_MIN_def INT_MAX_def example_wide_run)
       (elim exE conjE, intro exI conjI, assumption+)
qed

subsection \<open>Device controls\<close>










lemma bit_one_zero: "bit (Suc 0) (0::nat)"
  by (simp add: bit_0)



lemma example_numbers:
  "strtol_number ''300'' = 300" "strtol_number ''5'' = 5" "strtol_number ''-7'' = - 7"
  "strtol_number ''10'' = 10" "strtol_number ''4294967297'' = 4294967297"
  by (simp_all add: strtol_number_def isspace_def isdigit_def)


text \<open>
  A number that is no \<^verbatim>\<open>int\<close> is read as another one: 4294967297 is 2 ^ 32 + 1.
\<close>

lemma atoi_beyond_int: "atoi ''4294967297'' = 1"
  by (simp add: atoi_def strtol_def example_numbers LONG_MAX_def LONG_MIN_def c_int_def)


lemma fmt_nat_length:
  "n < 10 ^ k \<Longrightarrow> 0 < k \<Longrightarrow> length (fmt_nat n) \<le> k"
proof (induction n arbitrary: k rule: fmt_nat.induct)
  case (1 n)
  show ?case
  proof (cases "n < 10")
    case True
    with 1(3) show ?thesis
      by (simp add: fmt_nat.simps[of n])
  next
    case False
    obtain j where k: "k = Suc j"
      using 1(3) by (cases k) auto
    have "j \<noteq> 0"
      using False 1(2) k by (cases j) auto
    moreover have "n div 10 < 10 ^ j"
      using 1(2) k by (simp add: less_mult_imp_div_less mult.commute)
    ultimately have "length (fmt_nat (n div 10)) \<le> j"
      using 1(1)[OF False, of j] by simp
    with False k show ?thesis
      by (simp add: fmt_nat.simps[of n])
  qed
qed

lemma fmt_d_length:
  assumes "INT_MIN \<le> v" "v \<le> INT_MAX"
  shows "length (fmt_d v) \<le> 31"
proof -
  have "nat \<bar>v\<bar> < 10 ^ 10"
    using assms by (simp add: INT_MIN_def INT_MAX_def)
  then have "length (fmt_nat (nat \<bar>v\<bar>)) \<le> 10"
    by (rule fmt_nat_length) simp
  then show ?thesis
    by (auto simp: fmt_d_def abs_if)
qed

lemma parm_reset_users_fits:
  "length (fmt_d (ctrl_currval devitem)) \<le> 31 \<Longrightarrow>
     parm_reset_users devitem params = (parm_rewrite devitem params, False)"
  by (induction params) (simp_all add: parm_rewrite_def)

lemma parm_reset_fits:
  "length (fmt_d (ctrl_currval devitem)) \<le> 31 \<Longrightarrow>
     v4l2_parm_reset params devitem =
       (parm_rewrite devitem params, devitem \<lparr> ctrl_newval := ctrl_currval devitem \<rparr>,
        [Wrn_leaving (ctrl_iddesc devitem) (ctrl_name devitem) (ctrl_currval devitem)])"
  by (simp add: v4l2_parm_reset_def parm_reset_users_fits)

lemma ctrls_set_item_skip:
  "\<not> ctrl_pending devitem \<Longrightarrow>
     ctrls_set_item retry s_ctrl is_starting indx_dev devitem st = (devitem, st)"
  by (auto simp: ctrls_set_item_def ctrl_pending_def)

lemma ctrls_set_item_set:
  "ctrl_pending devitem \<Longrightarrow>
   s_ctrl (cs_hw st) (ctrl_id devitem) (ctrl_newval devitem) = (retcd, hw') \<Longrightarrow>
   \<not> retcd < 0 \<Longrightarrow>
     ctrls_set_item retry s_ctrl is_starting indx_dev devitem st =
       (devitem \<lparr> ctrl_currval := ctrl_newval devitem \<rparr>,
        st \<lparr> cs_hw := hw',
             cs_attempts := cs_attempts st
               @ [(indx_dev, ctrl_id devitem, ctrl_newval devitem, retcd)],
             cs_logs := cs_logs st
               @ (if is_starting
                  then [Inf_set_control (ctrl_name devitem) (ctrl_newval devitem)] else []) \<rparr>)"
  by (simp add: ctrls_set_item_def ctrl_pending_def Let_def)

lemma ctrls_set_item_first_fails:
  "ctrl_pending devitem \<Longrightarrow>
   s_ctrl (cs_hw st) (ctrl_id devitem) (ctrl_newval devitem) = (retcd, hw') \<Longrightarrow>
   retcd < 0 \<Longrightarrow>
     ctrls_set_item False s_ctrl is_starting indx_dev devitem st =
       (devitem,
        st \<lparr> cs_hw := hw',
             cs_failed := True,
             cs_attempts := cs_attempts st
               @ [(indx_dev, ctrl_id devitem, ctrl_newval devitem, retcd)] \<rparr>)"
  by (simp add: ctrls_set_item_def ctrl_pending_def Let_def)

lemma ctrls_set_item_retry_fails:
  "ctrl_pending devitem \<Longrightarrow>
   s_ctrl (cs_hw st) (ctrl_id devitem) (ctrl_newval devitem) = (retcd, hw') \<Longrightarrow>
   retcd < 0 \<Longrightarrow>
   length (fmt_d (ctrl_currval devitem)) \<le> 31 \<Longrightarrow>
     ctrls_set_item True s_ctrl is_starting indx_dev devitem st =
       (devitem \<lparr> ctrl_newval := ctrl_currval devitem \<rparr>,
        st \<lparr> cs_hw := hw',
             cs_attempts := cs_attempts st
               @ [(indx_dev, ctrl_id devitem, ctrl_newval devitem, retcd)],
             cs_params := parm_rewrite devitem (cs_params st),
             cs_logs := cs_logs st @ rollback_warnings devitem \<rparr>)"
  by (simp add: ctrls_set_item_def ctrl_pending_def Let_def parm_reset_fits rollback_warnings_def)

lemma s_ctrl_run_append:
  "s_ctrl_run s_ctrl hw (xs @ ys) =
     (case s_ctrl_run s_ctrl hw xs of
        (retcds, hw') \<Rightarrow>
          (case s_ctrl_run s_ctrl hw' ys of
             (retcds', hw'') \<Rightarrow> (retcds @ retcds', hw'')))"
  by (induction xs arbitrary: hw) (auto split: prod.splits)

lemma warnings_append:
  "warnings (xs @ ys) = warnings xs @ warnings ys"
  by (simp add: warnings_def)

lemma warnings_info:
  "warnings [Inf_set_control name v] = []" "warnings [] = []"
  by (simp_all add: warnings_def)

lemma warnings_rollback:
  "warnings (rollback_warnings devitem) = rollback_warnings devitem"
  by (simp add: warnings_def rollback_warnings_def)

lemma rolled_back_Cons:
  "rolled_back (devitem # array) (outcome # outcomes) =
     (if outcome_failed outcome then [devitem] else []) @ rolled_back array outcomes"
  by (simp add: rolled_back_def)

lemma outcome_simps:
  "outcome_failed None = False" "outcome_failed (Some retcd) = (retcd < 0)"
  "outcome_set None = False" "outcome_set (Some retcd) = (\<not> retcd < 0)"
  by (simp_all add: outcome_failed_def outcome_set_def)

lemma ctrl_settled_simps:
  "ctrl_settled devitem None None = devitem"
  "ctrl_settled devitem (Some retcd) None =
     (if retcd < 0 then devitem else devitem \<lparr> ctrl_currval := ctrl_newval devitem \<rparr>)"
  "ctrl_settled devitem None (Some retcd) =
     (if retcd < 0 then devitem \<lparr> ctrl_newval := ctrl_currval devitem \<rparr>
      else devitem \<lparr> ctrl_currval := ctrl_newval devitem \<rparr>)"
  by (simp_all add: ctrl_settled_def outcome_simps)

lemma ctrls_first_pass:
  "\<exists>outcomes.
      list_all2 (\<lambda>devitem outcome. (outcome \<noteq> None) = ctrl_pending devitem) array outcomes
    \<and> fst (ctrls_loop (ctrls_set_item False s_ctrl is_starting) indx_dev array st)
        = map (\<lambda>(devitem, outcome). ctrl_settled devitem outcome None) (zip array outcomes)
    \<and> cs_attempts (snd (ctrls_loop (ctrls_set_item False s_ctrl is_starting) indx_dev array st))
        = cs_attempts st @ pass_attempts indx_dev array outcomes
    \<and> cs_failed (snd (ctrls_loop (ctrls_set_item False s_ctrl is_starting) indx_dev array st))
        = (cs_failed st \<or> list_ex outcome_failed outcomes)
    \<and> cs_params (snd (ctrls_loop (ctrls_set_item False s_ctrl is_starting) indx_dev array st))
        = cs_params st
    \<and> warnings (cs_logs (snd (ctrls_loop (ctrls_set_item False s_ctrl is_starting) indx_dev
                                  array st)))
        = warnings (cs_logs st)
    \<and> s_ctrl_run s_ctrl (cs_hw st) (pass_attempts indx_dev array outcomes)
        = (map (\<lambda>(indx, cid, v, retcd). retcd) (pass_attempts indx_dev array outcomes),
           cs_hw (snd (ctrls_loop (ctrls_set_item False s_ctrl is_starting) indx_dev array st)))"
proof (induction array arbitrary: indx_dev st)
  case Nil
  show ?case by (intro exI[of _ "[]"]) simp
next
  case (Cons devitem array)
  let ?body = "ctrls_set_item False s_ctrl is_starting"
  show ?case
  proof (cases "ctrl_pending devitem")
    case False
    from Cons[of "Suc indx_dev" st] obtain outcomes where
      "list_all2 (\<lambda>devitem outcome. (outcome \<noteq> None) = ctrl_pending devitem) array outcomes"
      "fst (ctrls_loop ?body (Suc indx_dev) array st)
        = map (\<lambda>(devitem, outcome). ctrl_settled devitem outcome None) (zip array outcomes)"
      "cs_attempts (snd (ctrls_loop ?body (Suc indx_dev) array st))
        = cs_attempts st @ pass_attempts (Suc indx_dev) array outcomes"
      "cs_failed (snd (ctrls_loop ?body (Suc indx_dev) array st))
        = (cs_failed st \<or> list_ex outcome_failed outcomes)"
      "cs_params (snd (ctrls_loop ?body (Suc indx_dev) array st)) = cs_params st"
      "warnings (cs_logs (snd (ctrls_loop ?body (Suc indx_dev) array st))) = warnings (cs_logs st)"
      "s_ctrl_run s_ctrl (cs_hw st) (pass_attempts (Suc indx_dev) array outcomes)
        = (map (\<lambda>(indx, cid, v, retcd). retcd) (pass_attempts (Suc indx_dev) array outcomes),
           cs_hw (snd (ctrls_loop ?body (Suc indx_dev) array st)))"
      by blast
    with False show ?thesis
      by (intro exI[of _ "None # outcomes"])
         (simp add: ctrls_set_item_skip case_prod_beta ctrl_settled_simps outcome_simps)
  next
    case True
    obtain retcd hw' where
      reply: "s_ctrl (cs_hw st) (ctrl_id devitem) (ctrl_newval devitem) = (retcd, hw')"
      by (cases "s_ctrl (cs_hw st) (ctrl_id devitem) (ctrl_newval devitem)")
    define st1 where
      "st1 = st \<lparr> cs_hw := hw',
                   cs_failed := (cs_failed st \<or> retcd < 0),
                   cs_attempts := cs_attempts st
                     @ [(indx_dev, ctrl_id devitem, ctrl_newval devitem, retcd)],
                   cs_logs := cs_logs st
                     @ (if \<not> retcd < 0 \<and> is_starting
                        then [Inf_set_control (ctrl_name devitem) (ctrl_newval devitem)]
                        else []) \<rparr>"
    have item: "?body indx_dev devitem st = (ctrl_settled devitem (Some retcd) None, st1)"
    proof (cases "retcd < 0")
      case True
      with ctrls_set_item_first_fails[where s_ctrl = s_ctrl and st = st,
          OF \<open>ctrl_pending devitem\<close> reply True]
      show ?thesis
        by (simp add: st1_def ctrl_settled_simps)
    next
      case False
      with ctrls_set_item_set[where s_ctrl = s_ctrl and st = st,
          OF \<open>ctrl_pending devitem\<close> reply False]
      show ?thesis
        by (simp add: st1_def ctrl_settled_simps)
    qed
    have st1: "cs_hw st1 = hw'"
        "cs_attempts st1
           = cs_attempts st @ [(indx_dev, ctrl_id devitem, ctrl_newval devitem, retcd)]"
        "cs_failed st1 = (cs_failed st \<or> retcd < 0)"
        "cs_params st1 = cs_params st"
        "warnings (cs_logs st1) = warnings (cs_logs st)"
      by (simp_all add: st1_def warnings_append warnings_info)
    from Cons[of "Suc indx_dev" st1] obtain outcomes where
      "list_all2 (\<lambda>devitem outcome. (outcome \<noteq> None) = ctrl_pending devitem) array outcomes"
      "fst (ctrls_loop ?body (Suc indx_dev) array st1)
        = map (\<lambda>(devitem, outcome). ctrl_settled devitem outcome None) (zip array outcomes)"
      "cs_attempts (snd (ctrls_loop ?body (Suc indx_dev) array st1))
        = cs_attempts st1 @ pass_attempts (Suc indx_dev) array outcomes"
      "cs_failed (snd (ctrls_loop ?body (Suc indx_dev) array st1))
        = (cs_failed st1 \<or> list_ex outcome_failed outcomes)"
      "cs_params (snd (ctrls_loop ?body (Suc indx_dev) array st1)) = cs_params st1"
      "warnings (cs_logs (snd (ctrls_loop ?body (Suc indx_dev) array st1)))
        = warnings (cs_logs st1)"
      "s_ctrl_run s_ctrl (cs_hw st1) (pass_attempts (Suc indx_dev) array outcomes)
        = (map (\<lambda>(indx, cid, v, retcd). retcd) (pass_attempts (Suc indx_dev) array outcomes),
           cs_hw (snd (ctrls_loop ?body (Suc indx_dev) array st1)))"
      by blast
    with True show ?thesis
      by (intro exI[of _ "Some retcd # outcomes"])
         (simp add: item st1 reply case_prod_beta outcome_simps)
  qed
qed

lemma ctrls_retry_pass:
  assumes fits: "\<forall>devitem\<in>set array. length (fmt_d (ctrl_currval devitem)) \<le> 31"
  shows "\<exists>outcomes.
      list_all2 (\<lambda>devitem outcome. (outcome \<noteq> None) = ctrl_pending devitem) array outcomes
    \<and> fst (ctrls_loop (ctrls_set_item True s_ctrl is_starting) indx_dev array st)
        = map (\<lambda>(devitem, outcome). ctrl_settled devitem None outcome) (zip array outcomes)
    \<and> cs_attempts (snd (ctrls_loop (ctrls_set_item True s_ctrl is_starting) indx_dev array st))
        = cs_attempts st @ pass_attempts indx_dev array outcomes
    \<and> cs_params (snd (ctrls_loop (ctrls_set_item True s_ctrl is_starting) indx_dev array st))
        = fold parm_rewrite (rolled_back array outcomes) (cs_params st)
    \<and> warnings (cs_logs (snd (ctrls_loop (ctrls_set_item True s_ctrl is_starting) indx_dev
                                  array st)))
        = warnings (cs_logs st) @ concat (map rollback_warnings (rolled_back array outcomes))
    \<and> s_ctrl_run s_ctrl (cs_hw st) (pass_attempts indx_dev array outcomes)
        = (map (\<lambda>(indx, cid, v, retcd). retcd) (pass_attempts indx_dev array outcomes),
           cs_hw (snd (ctrls_loop (ctrls_set_item True s_ctrl is_starting) indx_dev array st)))"
  using fits
proof (induction array arbitrary: indx_dev st)
  case Nil
  show ?case by (intro exI[of _ "[]"]) (simp add: rolled_back_def)
next
  case (Cons devitem array)
  let ?body = "ctrls_set_item True s_ctrl is_starting"
  have fits: "\<forall>devitem\<in>set array. length (fmt_d (ctrl_currval devitem)) \<le> 31"
    and fit: "length (fmt_d (ctrl_currval devitem)) \<le> 31"
    using Cons.prems by simp_all
  note IH = Cons.IH[OF fits]
  show ?case
  proof (cases "ctrl_pending devitem")
    case False
    from IH[of "Suc indx_dev" st] obtain outcomes where
      "list_all2 (\<lambda>devitem outcome. (outcome \<noteq> None) = ctrl_pending devitem) array outcomes"
      "fst (ctrls_loop ?body (Suc indx_dev) array st)
        = map (\<lambda>(devitem, outcome). ctrl_settled devitem None outcome) (zip array outcomes)"
      "cs_attempts (snd (ctrls_loop ?body (Suc indx_dev) array st))
        = cs_attempts st @ pass_attempts (Suc indx_dev) array outcomes"
      "cs_params (snd (ctrls_loop ?body (Suc indx_dev) array st))
        = fold parm_rewrite (rolled_back array outcomes) (cs_params st)"
      "warnings (cs_logs (snd (ctrls_loop ?body (Suc indx_dev) array st)))
        = warnings (cs_logs st) @ concat (map rollback_warnings (rolled_back array outcomes))"
      "s_ctrl_run s_ctrl (cs_hw st) (pass_attempts (Suc indx_dev) array outcomes)
        = (map (\<lambda>(indx, cid, v, retcd). retcd) (pass_attempts (Suc indx_dev) array outcomes),
           cs_hw (snd (ctrls_loop ?body (Suc indx_dev) array st)))"
      by blast
    with False show ?thesis
      by (intro exI[of _ "None # outcomes"])
         (simp add: ctrls_set_item_skip case_prod_beta ctrl_settled_simps outcome_simps
            rolled_back_Cons)
  next
    case True
    obtain retcd hw' where
      reply: "s_ctrl (cs_hw st) (ctrl_id devitem) (ctrl_newval devitem) = (retcd, hw')"
      by (cases "s_ctrl (cs_hw st) (ctrl_id devitem) (ctrl_newval devitem)")
    define st1 where
      "st1 = st \<lparr> cs_hw := hw',
                   cs_attempts := cs_attempts st
                     @ [(indx_dev, ctrl_id devitem, ctrl_newval devitem, retcd)],
                   cs_params := (if retcd < 0 then parm_rewrite devitem (cs_params st)
                                 else cs_params st),
                   cs_logs := cs_logs st
                     @ (if retcd < 0 then rollback_warnings devitem
                        else if is_starting
                        then [Inf_set_control (ctrl_name devitem) (ctrl_newval devitem)]
                        else []) \<rparr>"
    have item: "?body indx_dev devitem st = (ctrl_settled devitem None (Some retcd), st1)"
    proof (cases "retcd < 0")
      case True
      with ctrls_set_item_retry_fails[where s_ctrl = s_ctrl and st = st,
          OF \<open>ctrl_pending devitem\<close> reply True fit]
      show ?thesis
        by (simp add: st1_def ctrl_settled_simps)
    next
      case False
      with ctrls_set_item_set[where s_ctrl = s_ctrl and st = st,
          OF \<open>ctrl_pending devitem\<close> reply False]
      show ?thesis
        by (simp add: st1_def ctrl_settled_simps)
    qed
    have st1: "cs_hw st1 = hw'"
        "cs_attempts st1
           = cs_attempts st @ [(indx_dev, ctrl_id devitem, ctrl_newval devitem, retcd)]"
        "cs_params st1 = (if retcd < 0 then parm_rewrite devitem (cs_params st)
                          else cs_params st)"
        "warnings (cs_logs st1)
           = warnings (cs_logs st) @ (if retcd < 0 then rollback_warnings devitem else [])"
      by (simp_all add: st1_def warnings_append warnings_info warnings_rollback)
    from IH[of "Suc indx_dev" st1] obtain outcomes where
      "list_all2 (\<lambda>devitem outcome. (outcome \<noteq> None) = ctrl_pending devitem) array outcomes"
      "fst (ctrls_loop ?body (Suc indx_dev) array st1)
        = map (\<lambda>(devitem, outcome). ctrl_settled devitem None outcome) (zip array outcomes)"
      "cs_attempts (snd (ctrls_loop ?body (Suc indx_dev) array st1))
        = cs_attempts st1 @ pass_attempts (Suc indx_dev) array outcomes"
      "cs_params (snd (ctrls_loop ?body (Suc indx_dev) array st1))
        = fold parm_rewrite (rolled_back array outcomes) (cs_params st1)"
      "warnings (cs_logs (snd (ctrls_loop ?body (Suc indx_dev) array st1)))
        = warnings (cs_logs st1) @ concat (map rollback_warnings (rolled_back array outcomes))"
      "s_ctrl_run s_ctrl (cs_hw st1) (pass_attempts (Suc indx_dev) array outcomes)
        = (map (\<lambda>(indx, cid, v, retcd). retcd) (pass_attempts (Suc indx_dev) array outcomes),
           cs_hw (snd (ctrls_loop ?body (Suc indx_dev) array st1)))"
      by blast
    with True show ?thesis
      by (intro exI[of _ "Some retcd # outcomes"])
         (simp add: item st1 reply case_prod_beta outcome_simps rolled_back_Cons)
  qed
qed

lemma two_pass_combine:
  "length again = length first \<Longrightarrow> length first = length array \<Longrightarrow>
   list_all2 (\<lambda>devitem outcome. (outcome \<noteq> None) = ctrl_pending devitem) array first \<Longrightarrow>
   list_all2 (\<lambda>devitem outcome. (outcome \<noteq> None) = ctrl_pending devitem)
     (map (\<lambda>(devitem, outcome). ctrl_settled devitem outcome None) (zip array first)) again \<Longrightarrow>
     pass_attempts indx_dev
        (map (\<lambda>(devitem, outcome). ctrl_settled devitem outcome None) (zip array first)) again
       = pass_attempts indx_dev array again
   \<and> rolled_back
        (map (\<lambda>(devitem, outcome). ctrl_settled devitem outcome None) (zip array first)) again
       = rolled_back array again
   \<and> map (\<lambda>(devitem, outcome). ctrl_settled devitem None outcome)
        (zip (map (\<lambda>(devitem, outcome). ctrl_settled devitem outcome None) (zip array first))
             again)
       = map (\<lambda>(devitem, outcome, again). ctrl_settled devitem outcome again)
           (zip array (zip first again))
   \<and> list_all2 (\<lambda>outcome again. (again \<noteq> None) = outcome_failed outcome) first again"
proof (induction again first array arbitrary: indx_dev rule: list_induct3)
  case Nil
  show ?case by (simp add: rolled_back_def)
next
  case (Cons r2 again r1 first devitem array)
  have pend: "(r1 \<noteq> None) = ctrl_pending devitem"
    and pend2: "(r2 \<noteq> None) = ctrl_pending (ctrl_settled devitem r1 None)"
    and rest: "list_all2 (\<lambda>devitem outcome. (outcome \<noteq> None) = ctrl_pending devitem) array first"
      "list_all2 (\<lambda>devitem outcome. (outcome \<noteq> None) = ctrl_pending devitem)
           (map (\<lambda>(devitem, outcome). ctrl_settled devitem outcome None) (zip array first)) again"
    using Cons.prems by simp_all
  have fields: "ctrl_id (ctrl_settled devitem r1 None) = ctrl_id devitem"
      "ctrl_newval (ctrl_settled devitem r1 None) = ctrl_newval devitem"
    by (simp_all add: ctrl_settled_def outcome_simps)
  have again_iff: "(r2 \<noteq> None) = outcome_failed r1"
    using pend pend2
    by (cases r1) (auto simp: ctrl_settled_simps ctrl_pending_def outcome_simps)
  have same: "outcome_failed r2 \<Longrightarrow> ctrl_settled devitem r1 None = devitem"
    using again_iff by (cases r1; cases r2) (auto simp: ctrl_settled_simps outcome_simps)
  have settled: "ctrl_settled (ctrl_settled devitem r1 None) None r2 = ctrl_settled devitem r1 r2"
    using again_iff
    by (cases r1; cases r2) (auto simp: ctrl_settled_simps ctrl_settled_def outcome_simps)
  show ?case
    using Cons.IH[OF rest, of "Suc indx_dev"] same again_iff
    by (simp add: fields rolled_back_Cons settled split: option.splits)
qed

lemma pass_attempts_none:
  "pass_attempts indx_dev array (map (\<lambda>outcome. None) outcomes) = []"
proof (induction array arbitrary: indx_dev outcomes)
  case Nil
  show ?case by simp
next
  case (Cons devitem array)
  then show ?case by (cases outcomes) simp_all
qed

lemma rolled_back_none:
  "rolled_back array (map (\<lambda>outcome. None) outcomes) = []"
proof (induction array arbitrary: outcomes)
  case Nil
  show ?case by (simp add: rolled_back_def)
next
  case (Cons devitem array)
  show ?case
  proof (cases outcomes)
    case Nil
    then show ?thesis by (simp add: rolled_back_def)
  next
    case (Cons outcome rest)
    with Cons.IH[of rest] show ?thesis
      by (simp add: rolled_back_Cons outcome_simps)
  qed
qed

lemma settled_none:
  "map (\<lambda>(devitem, outcome, again). ctrl_settled devitem outcome again)
     (zip array (zip outcomes (map (\<lambda>outcome. None) outcomes)))
   = map (\<lambda>(devitem, outcome). ctrl_settled devitem outcome None) (zip array outcomes)"
proof (induction array arbitrary: outcomes)
  case Nil
  show ?case by simp
next
  case (Cons devitem array)
  then show ?case by (cases outcomes) simp_all
qed

lemma settled_fits:
  assumes "\<forall>devitem\<in>set array.
             length (fmt_d (ctrl_currval devitem)) \<le> 31
             \<and> length (fmt_d (ctrl_newval devitem)) \<le> 31"
  shows "\<forall>devitem\<in>set (map (\<lambda>(devitem, outcome). ctrl_settled devitem outcome None)
                            (zip array outcomes)).
           length (fmt_d (ctrl_currval devitem)) \<le> 31"
  using assms by (auto simp: ctrl_settled_def dest!: set_zip_leftD)

text \<open>
  C9. The device is ready (it has its private structure) and the current and requested
  values of its controls are C integers. Then \<^verbatim>\<open>v4l2_ctrls_set\<close> returns 0, and there are
  outcomes \<open>first\<close> and \<open>again\<close> of two passes over the control array such that: the first
  pass issues a request for exactly the pending controls; the second pass issues a
  request for exactly the controls whose first request failed (so none when no request
  failed), one each; the requests are those of the first pass followed by those of the
  second, each with the identifier and the requested value of its control, and the codes
  are the replies of the device to them in that order; a control whose request succeeded
  in either pass has its current value set to the requested one, a control whose second
  request failed has its requested value reset to its current one, every other control
  is unchanged; the user parameters are rewritten, for each control rolled back, to its
  current value where they match it; and the warnings are the two of each rollback.
\<close>

theorem ctrls_set_two_phase:
  assumes ready: "v4l2_private curdev \<noteq> None"
      and range: "\<forall>devitem\<in>set (devctrl_array curdev).
                    INT_MIN \<le> ctrl_currval devitem \<and> ctrl_currval devitem \<le> INT_MAX
                    \<and> INT_MIN \<le> ctrl_newval devitem \<and> ctrl_newval devitem \<le> INT_MAX"
  shows "\<exists>first again.
      list_all2 (\<lambda>devitem outcome. (outcome \<noteq> None) = ctrl_pending devitem)
        (devctrl_array curdev) first
    \<and> list_all2 (\<lambda>outcome again. (again \<noteq> None) = outcome_failed outcome) first again
    \<and> (case v4l2_ctrls_set s_ctrl hw cnt curdev of
          (retcd, cnt', curdev', run) \<Rightarrow>
            retcd = 0
          \<and> cs_attempts run = pass_attempts 0 (devctrl_array curdev) first
                               @ pass_attempts 0 (devctrl_array curdev) again
          \<and> s_ctrl_run s_ctrl hw (cs_attempts run)
              = (map (\<lambda>(indx_dev, cid, v, retcd). retcd) (cs_attempts run), cs_hw run)
          \<and> devctrl_array curdev'
              = map (\<lambda>(devitem, outcome, again). ctrl_settled devitem outcome again)
                  (zip (devctrl_array curdev) (zip first again))
          \<and> params_array cnt'
              = fold parm_rewrite (rolled_back (devctrl_array curdev) again) (params_array cnt)
          \<and> warnings (cs_logs run)
              = concat (map rollback_warnings (rolled_back (devctrl_array curdev) again)))"
proof -
  let ?array = "devctrl_array curdev"
  let ?st0 = "\<lparr> cs_hw = hw, cs_failed = False, cs_attempts = [], cs_logs = [],
                cs_params = params_array cnt \<rparr>"
  let ?pass1 = "ctrls_loop (ctrls_set_item False s_ctrl (starting curdev)) 0 ?array ?st0"
  let ?pass2 = "ctrls_loop (ctrls_set_item True s_ctrl (starting curdev)) 0 (fst ?pass1)
                  (snd ?pass1)"
  obtain vid_source where priv: "v4l2_private curdev = Some vid_source"
    using ready by auto
  have run: "v4l2_ctrls_set s_ctrl hw cnt curdev =
     (if cs_failed (snd ?pass1)
      then (0, cnt \<lparr> params_array := cs_params (snd ?pass2) \<rparr>,
            curdev \<lparr> devctrl_array := fst ?pass2 \<rparr>, snd ?pass2)
      else (0, cnt, curdev \<lparr> devctrl_array := fst ?pass1 \<rparr>, snd ?pass1))"
    by (simp add: v4l2_ctrls_set_def priv case_prod_beta Let_def)
  from ctrls_first_pass[of ?array s_ctrl "starting curdev" 0 ?st0] obtain first where
    pending: "list_all2 (\<lambda>devitem outcome. (outcome \<noteq> None) = ctrl_pending devitem) ?array first"
    and array1: "fst ?pass1
        = map (\<lambda>(devitem, outcome). ctrl_settled devitem outcome None) (zip ?array first)"
    and attempts1: "cs_attempts (snd ?pass1) = pass_attempts 0 ?array first"
    and failed1: "cs_failed (snd ?pass1) = list_ex outcome_failed first"
    and params1: "cs_params (snd ?pass1) = params_array cnt"
    and logs1: "warnings (cs_logs (snd ?pass1)) = []"
    and replies1: "s_ctrl_run s_ctrl hw (pass_attempts 0 ?array first)
        = (map (\<lambda>(indx, cid, v, retcd). retcd) (pass_attempts 0 ?array first),
           cs_hw (snd ?pass1))"
    by (auto simp: warnings_info)
  show ?thesis
  proof (cases "cs_failed (snd ?pass1)")
    case False
    then have none: "list_all2 (\<lambda>outcome again. (again \<noteq> None) = outcome_failed outcome)
                       first (map (\<lambda>outcome. None) first)"
      by (simp add: failed1 list_all2_map2 list_all2_same list_ex_iff)
    show ?thesis
      using pending none False
      by (intro exI[of _ first] exI[of _ "map (\<lambda>outcome. None) first"])
         (simp add: run pass_attempts_none rolled_back_none settled_none array1 attempts1
            params1 logs1 replies1)
  next
    case True
    have fits: "\<forall>devitem\<in>set ?array.
                  length (fmt_d (ctrl_currval devitem)) \<le> 31
                  \<and> length (fmt_d (ctrl_newval devitem)) \<le> 31"
      using range by (simp add: fmt_d_length)
    have fits1: "\<forall>devitem\<in>set (fst ?pass1). length (fmt_d (ctrl_currval devitem)) \<le> 31"
      unfolding array1 by (rule settled_fits[OF fits])
    from ctrls_retry_pass[OF fits1, of s_ctrl "starting curdev" 0 "snd ?pass1"]
    obtain again where
      pending2: "list_all2 (\<lambda>devitem outcome. (outcome \<noteq> None) = ctrl_pending devitem)
                   (fst ?pass1) again"
      and array2: "fst ?pass2
          = map (\<lambda>(devitem, outcome). ctrl_settled devitem None outcome) (zip (fst ?pass1) again)"
      and attempts2: "cs_attempts (snd ?pass2)
          = cs_attempts (snd ?pass1) @ pass_attempts 0 (fst ?pass1) again"
      and params2: "cs_params (snd ?pass2)
          = fold parm_rewrite (rolled_back (fst ?pass1) again) (cs_params (snd ?pass1))"
      and logs2: "warnings (cs_logs (snd ?pass2))
          = warnings (cs_logs (snd ?pass1))
            @ concat (map rollback_warnings (rolled_back (fst ?pass1) again))"
      and replies2: "s_ctrl_run s_ctrl (cs_hw (snd ?pass1)) (pass_attempts 0 (fst ?pass1) again)
          = (map (\<lambda>(indx, cid, v, retcd). retcd) (pass_attempts 0 (fst ?pass1) again),
             cs_hw (snd ?pass2))"
      by blast
    have len: "length again = length first" "length first = length ?array"
      using pending pending2 by (simp_all add: array1 list_all2_lengthD[symmetric])
    note comb = two_pass_combine[OF len pending pending2[unfolded array1], of 0]
    have attempts: "pass_attempts 0 (fst ?pass1) again = pass_attempts 0 ?array again"
      unfolding array1 using comb by blast
    have rolled: "rolled_back (fst ?pass1) again = rolled_back ?array again"
      unfolding array1 using comb by blast
    have retried: "list_all2 (\<lambda>outcome again. (again \<noteq> None) = outcome_failed outcome)
                      first again"
      using comb by blast
    have settled: "fst ?pass2
          = map (\<lambda>(devitem, outcome, again). ctrl_settled devitem outcome again)
              (zip ?array (zip first again))"
    proof -
      have "fst ?pass2
          = map (\<lambda>(devitem, outcome). ctrl_settled devitem None outcome)
              (zip (map (\<lambda>(devitem, outcome). ctrl_settled devitem outcome None)
                      (zip ?array first)) again)"
        using array2 unfolding array1 .
      also have "\<dots> = map (\<lambda>(devitem, outcome, again). ctrl_settled devitem outcome again)
              (zip ?array (zip first again))"
        using comb by blast
      finally show ?thesis .
    qed
    show ?thesis
      using pending retried True
      by (intro exI[of _ first] exI[of _ again])
         (simp add: run attempts2 attempts1 attempts rolled settled params2 params1 logs2 logs1
            s_ctrl_run_append replies1 replies2[unfolded attempts])
  qed
qed

lemma fmt_d_100: "fmt_d 100 = ''100''"
  by (simp add: fmt_d_def fmt_nat.simps[of 100] fmt_nat.simps[of 10] fmt_nat.simps[of 1]
      fmt_nat.simps[of "Suc 0"]
      char_of_def bit_one_zero)

lemma example_pending_array:
  "devctrl_array example_dev_pending
     = [example_exposure, example_exposure_auto, example_brightness \<lparr> ctrl_newval := 200 \<rparr>]"
  by (simp add: example_dev_pending_def)

lemma example_pending_matches:
  "\<not> devitem_matches (example_brightness \<lparr> ctrl_newval := 200 \<rparr>)
       \<lparr> param_name = ''ID10094850'', param_value = ''300'' \<rparr>"
  "devitem_matches (example_brightness \<lparr> ctrl_newval := 200 \<rparr>)
       \<lparr> param_name = ''brightness'', param_value = ''200'' \<rparr>"
  by (simp_all add: devitem_matches_def example_brightness_def mystrceq_def tolower_def
      char_of_def bit_one_zero)

lemma example_reset:
  "v4l2_parm_reset [\<lparr> param_name = ''brightness'', param_value = ''200'' \<rparr>,
                    \<lparr> param_name = ''ID10094850'', param_value = ''300'' \<rparr>]
     (example_brightness \<lparr> ctrl_newval := 200 \<rparr>)
   = ([\<lparr> param_name = ''brightness'', param_value = ''100'' \<rparr>,
       \<lparr> param_name = ''ID10094850'', param_value = ''300'' \<rparr>],
      example_brightness,
      [Wrn_leaving ''ID09963776'' ''Brightness'' 100])"
proof -
  have "ctrl_currval (example_brightness \<lparr> ctrl_newval := 200 \<rparr>) = 100"
    by (simp add: example_brightness_def)
  then show ?thesis
    by (simp add: v4l2_parm_reset_def example_pending_matches fmt_d_100)
       (simp add: example_brightness_def)
qed

lemma ctrls_set_example:
  "v4l2_ctrls_set example_s_ctrl False example_cnt_pending example_dev_pending =
     (0,
      example_cnt_pending
        \<lparr> params_array := [\<lparr> param_name = ''brightness'', param_value = ''100'' \<rparr>,
                           \<lparr> param_name = ''ID10094850'', param_value = ''300'' \<rparr>] \<rparr>,
      example_dev_pending
        \<lparr> devctrl_array := [example_exposure \<lparr> ctrl_currval := 300 \<rparr>,
                            example_exposure_auto \<lparr> ctrl_currval := 1 \<rparr>,
                            example_brightness] \<rparr>,
      \<lparr> cs_hw = True, cs_failed = True,
        cs_attempts = [(0, 10094850, 300, - 1), (1, 10094849, 1, 0), (2, 9963776, 200, - 1),
                       (0, 10094850, 300, 0), (2, 9963776, 200, - 1)],
        cs_logs = [Wrn_set_failed ''ID09963776'' ''Brightness'' 200,
                   Wrn_leaving ''ID09963776'' ''Brightness'' 100],
        cs_params = [\<lparr> param_name = ''brightness'', param_value = ''100'' \<rparr>,
                     \<lparr> param_name = ''ID10094850'', param_value = ''300'' \<rparr>] \<rparr>)"
proof -
  have priv: "v4l2_private example_dev_pending = Some example_src"
    "starting example_dev_pending = False"
    by (simp_all add: example_dev_pending_def example_dev_def)
  have params: "params_array example_cnt_pending
                  = [\<lparr> param_name = ''brightness'', param_value = ''200'' \<rparr>,
                     \<lparr> param_name = ''ID10094850'', param_value = ''300'' \<rparr>]"
    by (simp add: example_cnt_pending_def)
  have fields:
    "ctrl_menuitem example_exposure = False" "ctrl_currval example_exposure = 156"
    "ctrl_newval example_exposure = 300" "ctrl_id example_exposure = 10094850"
    "ctrl_menuitem example_exposure_auto = False" "ctrl_currval example_exposure_auto = 3"
    "ctrl_newval example_exposure_auto = 1" "ctrl_id example_exposure_auto = 10094849"
    "ctrl_menuitem example_brightness = False" "ctrl_currval example_brightness = 100"
    "ctrl_newval example_brightness = 100" "ctrl_id example_brightness = 9963776"
    "ctrl_iddesc example_brightness = ''ID09963776''"
    "ctrl_name example_brightness = ''Brightness''"
    by (simp_all add: example_exposure_def example_exposure_auto_def example_brightness_def
        V4L2_CID_EXPOSURE_ABSOLUTE_def V4L2_CID_BRIGHTNESS_def)
  show ?thesis
    by (simp add: v4l2_ctrls_set_def priv params example_pending_array ctrls_set_item_def
        fields example_s_ctrl_def V4L2_CID_EXPOSURE_ABSOLUTE_def example_reset Let_def)
qed

text \<open>
  The exposure fails in the first pass and succeeds in the second, after the menu has been
  set; the brightness fails twice, is rolled back to 100, and so is the user's parameter.
\<close>

theorem ctrls_set_two_phase_witness:
  "v4l2_private example_dev_pending \<noteq> None
   \<and> (\<exists>first again.
         list_all2 (\<lambda>devitem outcome. (outcome \<noteq> None) = ctrl_pending devitem)
           (devctrl_array example_dev_pending) first
       \<and> list_all2 (\<lambda>outcome again. (again \<noteq> None) = outcome_failed outcome) first again
       \<and> [(0, 10094850, 300, - 1), (1, 10094849, 1, 0), (2, 9963776, 200, - 1),
           (0, 10094850, 300, 0), (2, 9963776, 200, - 1)]
           = pass_attempts 0 (devctrl_array example_dev_pending) first
             @ pass_attempts 0 (devctrl_array example_dev_pending) again
       \<and> [example_exposure \<lparr> ctrl_currval := 300 \<rparr>,
           example_exposure_auto \<lparr> ctrl_currval := 1 \<rparr>,
           example_brightness]
           = map (\<lambda>(devitem, outcome, again). ctrl_settled devitem outcome again)
               (zip (devctrl_array example_dev_pending) (zip first again))
       \<and> [\<lparr> param_name = ''brightness'', param_value = ''100'' \<rparr>,
           \<lparr> param_name = ''ID10094850'', param_value = ''300'' \<rparr>]
           = fold parm_rewrite (rolled_back (devctrl_array example_dev_pending) again)
               (params_array example_cnt_pending)
       \<and> [Wrn_set_failed ''ID09963776'' ''Brightness'' 200,
           Wrn_leaving ''ID09963776'' ''Brightness'' 100]
           = concat (map rollback_warnings
                       (rolled_back (devctrl_array example_dev_pending) again)))"
proof -
  have ready: "v4l2_private example_dev_pending \<noteq> None"
    by (simp add: example_dev_pending_def example_dev_def)
  have range: "\<forall>devitem\<in>set (devctrl_array example_dev_pending).
                 INT_MIN \<le> ctrl_currval devitem \<and> ctrl_currval devitem \<le> INT_MAX
                 \<and> INT_MIN \<le> ctrl_newval devitem \<and> ctrl_newval devitem \<le> INT_MAX"
    by (simp add: example_pending_array example_exposure_def example_exposure_auto_def
        example_brightness_def INT_MIN_def INT_MAX_def)
  have scan: "warnings [Wrn_set_failed ''ID09963776'' ''Brightness'' 200,
                        Wrn_leaving ''ID09963776'' ''Brightness'' 100]
              = [Wrn_set_failed ''ID09963776'' ''Brightness'' 200,
                 Wrn_leaving ''ID09963776'' ''Brightness'' 100]"
    by (simp add: warnings_def)
  show ?thesis
    using ctrls_set_two_phase[of example_dev_pending example_s_ctrl False example_cnt_pending,
        OF ready range]
    by (simp add: ctrls_set_example ready scan)
       (elim exE conjE, intro exI conjI, assumption+)
qed

end
